theory Spec2Isabelle
  imports Complex_Main
begin

section \<open>JavaScript numbers and values\<close>

text \<open>
  The program computes with JavaScript numbers.  Finite numbers are modelled by
  \<^typ>\<open>real\<close> (exact arithmetic, no rounding error); the special results the
  code can produce are made explicit: \<open>NaN\<close> for \<open>0/0\<close> and arithmetic on
  \<open>undefined\<close>, \<open>Undefined\<close> for an array read out of range.
\<close>

datatype jsval = Num real | NaN | Undefined

text \<open>\<open>a[i]\<close> in JavaScript: \<open>undefined\<close> (here \<open>None\<close>) out of range.\<close>

definition js_nth :: "'a list \<Rightarrow> nat \<Rightarrow> 'a option" where
  "js_nth xs i = (if i < length xs then Some (xs ! i) else None)"

text \<open>Returning an array element as it is: \<open>undefined\<close> stays \<open>undefined\<close>.\<close>

definition js_ret :: "real option \<Rightarrow> jsval" where
  "js_ret v = (case v of Some r \<Rightarrow> Num r | None \<Rightarrow> Undefined)"

section \<open>interpolate\<close>

text \<open>
  \<open>yArray[i] + ratio * (yArray[i + 1] - yArray[i])\<close> with
  \<open>ratio = (x - xArray[i]) / (xArray[i + 1] - xArray[i])\<close>.  The branch is only
  entered with \<open>xArray[i] \<le> x \<le> xArray[i + 1]\<close>, so a zero denominator comes with
  a zero numerator and the ratio is \<open>0/0 = NaN\<close>; an \<open>undefined\<close> operand makes the
  sum \<open>NaN\<close> as well.
\<close>

definition lerp :: "real \<Rightarrow> real \<Rightarrow> real \<Rightarrow> real option \<Rightarrow> real option \<Rightarrow> jsval" where
  "lerp x x0 x1 y0 y1 =
     (if x1 - x0 = 0 then NaN
      else (case (y0, y1) of
              (Some a, Some b) \<Rightarrow> Num (a + ((x - x0) / (x1 - x0)) * (b - a))
            | _ \<Rightarrow> NaN))"

text \<open>The \<open>for\<close> loop of \<open>interpolate\<close>, from index \<open>i\<close>; \<open>None\<close> when it falls through.\<close>

function interpolate_loop :: "nat \<Rightarrow> real \<Rightarrow> real list \<Rightarrow> real list \<Rightarrow> jsval option" where
  "interpolate_loop i x xArray yArray =
     (if i + 1 < length xArray then
        (if x \<ge> xArray ! i \<and> x \<le> xArray ! (i + 1)
         then Some (lerp x (xArray ! i) (xArray ! (i + 1)) (js_nth yArray i) (js_nth yArray (i + 1)))
         else interpolate_loop (i + 1) x xArray yArray)
      else None)"
  by pat_completeness auto
termination
  by (relation "measure (\<lambda>(i, x, xArray, yArray). length xArray - i)") auto

declare interpolate_loop.simps [simp del]

text \<open>A missing \<open>xArray\<close> (\<open>undefined\<close> or \<open>null\<close>) is \<open>None\<close>.\<close>

definition interpolate :: "real \<Rightarrow> real list option \<Rightarrow> real list \<Rightarrow> jsval" where
  "interpolate x xArray yArray =
     (case xArray of
        None \<Rightarrow> Num 0
      | Some xs \<Rightarrow>
          if length xs = 0 then Num 0
          else (case interpolate_loop 0 x xs yArray of
                  Some v \<Rightarrow> v
                | None \<Rightarrow>
                    if x < xs ! 0 then js_ret (js_nth yArray 0)
                    else if x > xs ! (length xs - 1) then js_ret (js_nth yArray (length yArray - 1))
                    else Num 0))"

section \<open>calculateTrajectory\<close>

definition degToRad :: "real \<Rightarrow> real" where
  "degToRad deg = deg * (pi / 180)"

record station =
  sv_md :: real
  sv_inc :: real
  sv_azi :: real

text \<open>A trajectory point \<open>{ x, y, z, md, tvd }\<close>.\<close>

record traj_point =
  tp_x :: real
  tp_y :: real
  tp_z :: real
  tp_md :: real
  tp_tvd :: real

text \<open>
  The dogleg angle and the ratio factor of the minimum curvature method.  At
  \<open>dl = pi\<close> the tangent has a pole: \<^term>\<open>tan (pi / 2)\<close> is \<open>0\<close> in HOL, where
  \<open>Math.tan\<close> returns a large positive number.
\<close>

definition dogleg :: "real \<Rightarrow> real \<Rightarrow> real \<Rightarrow> real \<Rightarrow> real" where
  "dogleg I1 I2 A1 A2 =
     arccos (max (- 1) (min 1 (cos (I2 - I1) - sin I1 * sin I2 * (1 - cos (A2 - A1)))))"

definition ratioFactor :: "real \<Rightarrow> real" where
  "ratioFactor dl = (if dl > 0.0001 then (2 / dl) * tan (dl / 2) else 1)"

text \<open>
  The loop over consecutive stations \<open>p1 = surveyPoints[i - 1]\<close>, \<open>p2 = surveyPoints[i]\<close>,
  carrying the accumulators \<open>N\<close>, \<open>E\<close>, \<open>TVD\<close>.
\<close>

fun trajectory_loop :: "station list \<Rightarrow> real \<Rightarrow> real \<Rightarrow> real \<Rightarrow> traj_point list" where
  "trajectory_loop (p1 # p2 # ps) N E TVD =
     (if sv_md p2 \<le> sv_md p1 then trajectory_loop (p2 # ps) N E TVD
      else
        let dm = sv_md p2 - sv_md p1;
            I1 = degToRad (sv_inc p1);
            I2 = degToRad (sv_inc p2);
            A1 = degToRad (sv_azi p1);
            A2 = degToRad (sv_azi p2);
            dl = dogleg I1 I2 A1 A2;
            RF = ratioFactor dl;
            dN = (dm / 2) * (sin I1 * cos A1 + sin I2 * cos A2) * RF;
            dE = (dm / 2) * (sin I1 * sin A1 + sin I2 * sin A2) * RF;
            dTVD = (dm / 2) * (cos I1 + cos I2) * RF;
            N' = N + dN;
            E' = E + dE;
            TVD' = TVD + dTVD
        in \<lparr>tp_x = E', tp_y = - TVD', tp_z = - N', tp_md = sv_md p2, tp_tvd = TVD'\<rparr>
             # trajectory_loop (p2 # ps) N' E' TVD')"
| "trajectory_loop ps N E TVD = []"

definition calculateTrajectory :: "station list \<Rightarrow> traj_point list" where
  "calculateTrajectory surveyPoints =
     (if length surveyPoints = 0 then []
      else \<lparr>tp_x = 0, tp_y = 0, tp_z = 0, tp_md = 0, tp_tvd = 0\<rparr>
             # trajectory_loop surveyPoints 0 0 0)"



text \<open>The increments of one step of the loop, named.\<close>

definition seg_RF :: "station \<Rightarrow> station \<Rightarrow> real" where
  "seg_RF p1 p2 = ratioFactor (dogleg (degToRad (sv_inc p1)) (degToRad (sv_inc p2))
                                      (degToRad (sv_azi p1)) (degToRad (sv_azi p2)))"

definition seg_dN :: "station \<Rightarrow> station \<Rightarrow> real" where
  "seg_dN p1 p2 = ((sv_md p2 - sv_md p1) / 2) *
     (sin (degToRad (sv_inc p1)) * cos (degToRad (sv_azi p1)) +
      sin (degToRad (sv_inc p2)) * cos (degToRad (sv_azi p2))) * seg_RF p1 p2"

definition seg_dE :: "station \<Rightarrow> station \<Rightarrow> real" where
  "seg_dE p1 p2 = ((sv_md p2 - sv_md p1) / 2) *
     (sin (degToRad (sv_inc p1)) * sin (degToRad (sv_azi p1)) +
      sin (degToRad (sv_inc p2)) * sin (degToRad (sv_azi p2))) * seg_RF p1 p2"

definition seg_dTVD :: "station \<Rightarrow> station \<Rightarrow> real" where
  "seg_dTVD p1 p2 = ((sv_md p2 - sv_md p1) / 2) *
     (cos (degToRad (sv_inc p1)) + cos (degToRad (sv_inc p2))) * seg_RF p1 p2"

section \<open>Rounding with toFixed\<close>

text \<open>
  \<open>parseFloat(v.toFixed(d))\<close>: the multiple of \<open>10^-d\<close> nearest to \<open>v\<close>; of two equally
  near ones the larger in magnitude (\<open>toFixed\<close> rounds the absolute value half up and
  puts the sign back).
\<close>

definition toFixed :: "nat \<Rightarrow> real \<Rightarrow> real" where
  "toFixed d v =
     (if v < 0 then - (of_int \<lfloor>(- v) * 10 ^ d + 1 / 2\<rfloor> / 10 ^ d)
      else of_int \<lfloor>v * 10 ^ d + 1 / 2\<rfloor> / 10 ^ d)"

section \<open>calculateIDFromODWeight\<close>

text \<open>
  \<open>od\<close> and \<open>weight\<close> are \<open>None\<close> when missing (\<open>undefined\<close>, \<open>null\<close>, \<open>NaN\<close>);
  \<open>!od\<close> also holds for \<open>0\<close>.  The result \<open>None\<close> is \<open>null\<close>.
\<close>

definition calculateIDFromODWeight ::
  "real option \<Rightarrow> real option \<Rightarrow> string \<Rightarrow> string \<Rightarrow> string \<Rightarrow> real option" where
  "calculateIDFromODWeight od weight unitOD unitWeight unitID =
     (case (od, weight) of
        (Some od', Some weight') \<Rightarrow>
          if od' = 0 \<or> weight' = 0 \<or> od' \<le> 0 \<or> weight' \<le> 0 then None
          else
            let odInch = (if unitOD = ''in'' then od' else od' / 2.54);
                wLbFt = (if unitWeight = ''lb/ft'' then weight' else weight' * 0.671969);
                idSq = (odInch * odInch) - (wLbFt / 2.67)
            in if idSq > 0 then
                 let idInch = sqrt idSq;
                     result = (if unitID = ''in'' then idInch else idInch * 2.54)
                 in Some (toFixed 3 result)
               else None
      | _ \<Rightarrow> None)"

text \<open>
  The unit conversions and the radicand of the steel-tubular relation
  \<open>idInch\<^sup>2 = odInch\<^sup>2 - weightLbFt / 2.67\<close>, named for the statements below.
\<close>

definition odInch_of :: "string \<Rightarrow> real \<Rightarrow> real" where
  "odInch_of unitOD od = (if unitOD = ''in'' then od else od / 2.54)"

definition wLbFt_of :: "string \<Rightarrow> real \<Rightarrow> real" where
  "wLbFt_of unitWeight weight = (if unitWeight = ''lb/ft'' then weight else weight * 0.671969)"

definition radicand :: "string \<Rightarrow> string \<Rightarrow> real \<Rightarrow> real \<Rightarrow> real" where
  "radicand unitOD unitWeight od weight =
     odInch_of unitOD od * odInch_of unitOD od - wLbFt_of unitWeight weight / 2.67"

definition fromInch :: "string \<Rightarrow> real \<Rightarrow> real" where
  "fromInch unitID v = (if unitID = ''in'' then v else v * 2.54)"

section \<open>The pressure profile (StepFluids)\<close>



















section \<open>parseSurveyData\<close>







































section \<open>The run stitcher (SimulationBuilder)\<close>

text \<open>
  A parsed simulation sample \<open>{ md, rih, pooh }\<close> and a chart point
  \<open>{ md, rih_standard_1, rih_standard_2, rih_tractor, pooh }\<close>; \<open>null\<close> is \<open>None\<close>.
\<close>

record sample =
  s_md :: real
  s_rih :: "real option"
  s_pooh :: "real option"

record stitched =
  pt_md :: real
  rih_standard_1 :: "real option"
  rih_standard_2 :: "real option"
  rih_tractor :: "real option"
  pt_pooh :: "real option"

text \<open>The state \<open>files\<close>: each slot is a parsed file or \<open>null\<close>.\<close>

record sim_files =
  f_rih :: "sample list option"
  f_tractor :: "sample list option"
  f_pooh :: "sample list option"

text \<open>
  \<open>forceDepth\<close> and \<open>stopDepth\<close> are numbers or an infinity: \<open>Math.max()\<close> of no
  arguments is \<open>-Infinity\<close>, and an unset stop depth is \<open>Infinity\<close>.
\<close>

datatype depth = NegInf | Fin real | PosInf

fun md_lt :: "real \<Rightarrow> depth \<Rightarrow> bool" where
  "md_lt m NegInf = False"
| "md_lt m (Fin d) = (m < d)"
| "md_lt m PosInf = True"

fun md_ge :: "real \<Rightarrow> depth \<Rightarrow> bool" where
  "md_ge m NegInf = True"
| "md_ge m (Fin d) = (m \<ge> d)"
| "md_ge m PosInf = False"

fun md_gt :: "real \<Rightarrow> depth \<Rightarrow> bool" where
  "md_gt m NegInf = True"
| "md_gt m (Fin d) = (m > d)"
| "md_gt m PosInf = False"

text \<open>\<open>Math.max(...xs)\<close>.\<close>

definition js_max :: "real list \<Rightarrow> depth" where
  "js_max xs = (case xs of [] \<Rightarrow> NegInf | x # rest \<Rightarrow> Fin (fold max rest x))"

text \<open>
  \<open>tractorDepth || Math.max(...files.rih.map(p => p.md))\<close>: the state \<open>tractorDepth\<close> is
  a number or \<open>NaN\<close> (\<open>None\<close>, from \<open>parseFloat\<close> of an empty input); \<open>0\<close> and \<open>NaN\<close> are
  falsy.
\<close>

definition forceDepth_of :: "real option \<Rightarrow> sample list \<Rightarrow> depth" where
  "forceDepth_of tractorDepth rih =
     (case tractorDepth of
        Some d \<Rightarrow> if d \<noteq> 0 then Fin d else js_max (map s_md rih)
      | None \<Rightarrow> js_max (map s_md rih))"

text \<open>\<open>stopTractorDepth > forceDepth ? stopTractorDepth : Infinity\<close>.\<close>

definition stopDepth_of :: "real option \<Rightarrow> depth \<Rightarrow> depth" where
  "stopDepth_of stopTractorDepth forceDepth =
     (case stopTractorDepth of
        Some s \<Rightarrow> if md_gt s forceDepth then Fin s else PosInf
      | None \<Rightarrow> PosInf)"

datatype pooh_source = SrcRih | SrcOverride | SrcTractor

definition poohSource_of :: "sim_files \<Rightarrow> pooh_source" where
  "poohSource_of files =
     (if f_pooh files \<noteq> None then SrcOverride
      else if f_tractor files \<noteq> None then SrcTractor
      else SrcRih)"

text \<open>The sorted, deduplicated union of the MD values.\<close>

definition allMDs_of :: "sample list \<Rightarrow> sample list \<Rightarrow> sample list option \<Rightarrow> real list" where
  "allMDs_of rih tractor pooh =
     sort (remdups (map s_md rih @ map s_md tractor @
                    (case pooh of Some ps \<Rightarrow> map s_md ps | None \<Rightarrow> [])))"

text \<open>\<open>xs.find(p => Math.abs(p.md - md) < 0.5)\<close>.\<close>

definition near :: "sample list \<Rightarrow> real \<Rightarrow> sample option" where
  "near xs m = find (\<lambda>p. \<bar>s_md p - m\<bar> < 0.5) xs"

text \<open>
  The variables the main pass carries.  An index of \<open>-1\<close> (nothing recorded yet) is
  \<open>None\<close>.
\<close>

record stitch_state =
  merged :: "stitched list"
  lastRihStandard1Value :: "real option"
  lastRihStandard1Index :: "nat option"
  lastRihTractorValue :: "real option"
  lastRihTractorIndex :: "nat option"

definition init_state :: stitch_state where
  "init_state = \<lparr>merged = [], lastRihStandard1Value = None, lastRihStandard1Index = None,
                  lastRihTractorValue = None, lastRihTractorIndex = None\<rparr>"

text \<open>The RIH logic of one iteration: the data point and the updated variables.\<close>

definition rih_logic ::
  "sample list \<Rightarrow> sample list \<Rightarrow> depth \<Rightarrow> depth \<Rightarrow> real \<Rightarrow> nat \<Rightarrow> stitched \<Rightarrow> stitch_state
     \<Rightarrow> stitched \<times> stitch_state" where
  "rih_logic rih tractor forceDepth stopDepth m index dataPoint s =
     (let tractorOffPoint = near rih m;
          tractorOnPoint = near tractor m
      in if md_lt m forceDepth then
           (case tractorOffPoint of
              Some p \<Rightarrow> (dataPoint\<lparr>rih_standard_1 := s_rih p\<rparr>,
                         s\<lparr>lastRihStandard1Value := s_rih p, lastRihStandard1Index := Some index\<rparr>)
            | None \<Rightarrow> (dataPoint, s))
         else if md_ge m forceDepth \<and> md_lt m stopDepth then
           (case tractorOnPoint of
              Some p \<Rightarrow> (dataPoint\<lparr>rih_tractor := s_rih p\<rparr>,
                         s\<lparr>lastRihTractorValue := s_rih p, lastRihTractorIndex := Some index\<rparr>)
            | None \<Rightarrow> (dataPoint, s))
         else
           (case tractorOffPoint of
              Some p \<Rightarrow> (dataPoint\<lparr>rih_standard_2 := s_rih p\<rparr>, s)
            | None \<Rightarrow>
                if lastRihStandard1Value s \<noteq> None
                then (dataPoint\<lparr>rih_standard_2 := lastRihStandard1Value s\<rparr>, s)
                else (dataPoint, s)))"

text \<open>
  The POOH logic of one iteration.  \<open>poohSource\<close> is \<open>override\<close> only when \<open>files.pooh\<close>
  is there.
\<close>

definition pooh_logic ::
  "sample list \<Rightarrow> sample list \<Rightarrow> sample list option \<Rightarrow> pooh_source \<Rightarrow> real \<Rightarrow> stitched \<Rightarrow> stitched" where
  "pooh_logic rih tractor pooh poohSource m dataPoint =
     (case poohSource of
        SrcOverride \<Rightarrow>
          (case pooh of
             Some ps \<Rightarrow> (case near ps m of Some p \<Rightarrow> dataPoint\<lparr>pt_pooh := s_pooh p\<rparr> | None \<Rightarrow> dataPoint)
           | None \<Rightarrow> dataPoint)
      | SrcTractor \<Rightarrow>
          (case near tractor m of Some p \<Rightarrow> dataPoint\<lparr>pt_pooh := s_pooh p\<rparr> | None \<Rightarrow> dataPoint)
      | SrcRih \<Rightarrow>
          (case near rih m of Some p \<Rightarrow> dataPoint\<lparr>pt_pooh := s_pooh p\<rparr> | None \<Rightarrow> dataPoint))"

text \<open>One iteration of \<open>allMDs.forEach((md, index) => ...)\<close>.\<close>

definition stitch_step ::
  "sample list \<Rightarrow> sample list \<Rightarrow> sample list option \<Rightarrow> depth \<Rightarrow> depth \<Rightarrow> pooh_source
     \<Rightarrow> real \<Rightarrow> nat \<Rightarrow> stitch_state \<Rightarrow> stitch_state" where
  "stitch_step rih tractor pooh forceDepth stopDepth poohSource m index s =
     (let dataPoint = \<lparr>pt_md = m, rih_standard_1 = None, rih_standard_2 = None,
                       rih_tractor = None, pt_pooh = None\<rparr>;
          (dataPoint1, s1) = rih_logic rih tractor forceDepth stopDepth m index dataPoint s;
          dataPoint2 = pooh_logic rih tractor pooh poohSource m dataPoint1
      in s1\<lparr>merged := merged s1 @ [dataPoint2]\<rparr>)"

fun main_pass ::
  "sample list \<Rightarrow> sample list \<Rightarrow> sample list option \<Rightarrow> depth \<Rightarrow> depth \<Rightarrow> pooh_source
     \<Rightarrow> real list \<Rightarrow> nat \<Rightarrow> stitch_state \<Rightarrow> stitch_state" where
  "main_pass rih tractor pooh forceDepth stopDepth poohSource [] index s = s"
| "main_pass rih tractor pooh forceDepth stopDepth poohSource (m # mds) index s =
     main_pass rih tractor pooh forceDepth stopDepth poohSource mds (index + 1)
       (stitch_step rih tractor pooh forceDepth stopDepth poohSource m index s)"

text \<open>CONNECT THE LINES 1: Standard 1 -> Tractor.\<close>

definition connect1 :: "depth \<Rightarrow> stitch_state \<Rightarrow> stitched list \<Rightarrow> stitched list" where
  "connect1 stopDepth s mrg =
     (case lastRihStandard1Index s of
        None \<Rightarrow> mrg
      | Some i \<Rightarrow>
          if i < length mrg then
            (if md_lt (pt_md (mrg ! i)) stopDepth then
               (if rih_tractor (mrg ! i) = None
                then mrg[i := (mrg ! i)\<lparr>rih_tractor := lastRihStandard1Value s\<rparr>]
                else mrg)
             else mrg)
          else mrg)"

text \<open>
  CONNECT THE LINES 2: Tractor -> Standard 2.  \<open>nextPoint\<close> is \<open>undefined\<close> (falsy) past
  the end of \<open>merged\<close>.
\<close>

definition connect2 :: "stitch_state \<Rightarrow> stitched list \<Rightarrow> stitched list" where
  "connect2 s mrg =
     (case lastRihTractorIndex s of
        None \<Rightarrow> mrg
      | Some i \<Rightarrow>
          if i < length mrg then
            (case js_nth mrg (i + 1) of
               None \<Rightarrow> mrg
             | Some nextPoint \<Rightarrow>
                 if rih_standard_2 nextPoint \<noteq> None \<or> rih_standard_2 (mrg ! i) \<noteq> None then
                   (if rih_standard_2 (mrg ! i) = None
                    then mrg[i := (mrg ! i)\<lparr>rih_standard_2 := lastRihTractorValue s\<rparr>]
                    else mrg)
                 else mrg)
          else mrg)"

text \<open>The state after the main pass of \<open>handleStitch\<close>.\<close>

definition stitch_main ::
  "sample list \<Rightarrow> sample list \<Rightarrow> sample list option \<Rightarrow> real option \<Rightarrow> real option \<Rightarrow> stitch_state" where
  "stitch_main rih tractor pooh tractorDepth stopTractorDepth =
     (let forceDepth = forceDepth_of tractorDepth rih;
          stopDepth = stopDepth_of stopTractorDepth forceDepth;
          poohSource = poohSource_of \<lparr>f_rih = Some rih, f_tractor = Some tractor, f_pooh = pooh\<rparr>
      in main_pass rih tractor pooh forceDepth stopDepth poohSource
           (allMDs_of rih tractor pooh) 0 init_state)"

text \<open>
  \<open>handleStitch\<close>: \<open>None\<close> when it alerts and returns (a file is missing), else the chart
  data it sets.
\<close>

definition handleStitch :: "sim_files \<Rightarrow> real option \<Rightarrow> real option \<Rightarrow> stitched list option" where
  "handleStitch files tractorDepth stopTractorDepth =
     (case (f_rih files, f_tractor files) of
        (Some rih, Some tractor) \<Rightarrow>
          let forceDepth = forceDepth_of tractorDepth rih;
              stopDepth = stopDepth_of stopTractorDepth forceDepth;
              s = stitch_main rih tractor (f_pooh files) tractorDepth stopTractorDepth
          in Some (connect2 s (connect1 stopDepth s (merged s)))
      | _ \<Rightarrow> None)"

text \<open>
  The effect that displays the RIH file alone: the new \<open>chartData\<close>, from \<open>files\<close>,
  \<open>isStitched\<close> and the \<open>chartData\<close> so far.
\<close>

definition autoDisplay :: "sim_files \<Rightarrow> bool \<Rightarrow> stitched list \<Rightarrow> stitched list" where
  "autoDisplay files isStitched chartData =
     (case f_rih files of
        None \<Rightarrow> []
      | Some rih \<Rightarrow>
          if isStitched then chartData
          else
            let mrg = map (\<lambda>p. \<lparr>pt_md = s_md p, rih_standard_1 = s_rih p, rih_standard_2 = None,
                                 rih_tractor = None,
                                 pt_pooh = (if f_pooh files \<noteq> None then None else s_pooh p)\<rparr>) rih
            in (case f_pooh files of
                  Some ps \<Rightarrow>
                    map (\<lambda>p. (case near ps (pt_md p) of
                                 Some poohPoint \<Rightarrow> p\<lparr>pt_pooh := s_pooh poohPoint\<rparr>
                               | None \<Rightarrow> p\<lparr>pt_pooh := pt_pooh p\<rparr>)) mrg
                | None \<Rightarrow> mrg))"

text \<open>
  Names for the statements below: the value a file holds near a depth, the three phases,
  and the depths at which the main pass records a Phase-1 or a Phase-2 value.
\<close>

definition near_rih :: "sample list \<Rightarrow> real \<Rightarrow> real option" where
  "near_rih xs m = (case near xs m of Some p \<Rightarrow> s_rih p | None \<Rightarrow> None)"

definition near_pooh :: "sample list \<Rightarrow> real \<Rightarrow> real option" where
  "near_pooh xs m = (case near xs m of Some p \<Rightarrow> s_pooh p | None \<Rightarrow> None)"

definition phase1 :: "depth \<Rightarrow> real \<Rightarrow> bool" where
  "phase1 forceDepth m = md_lt m forceDepth"

definition phase2 :: "depth \<Rightarrow> depth \<Rightarrow> real \<Rightarrow> bool" where
  "phase2 forceDepth stopDepth m = (md_ge m forceDepth \<and> md_lt m stopDepth)"

definition phase3 :: "depth \<Rightarrow> real \<Rightarrow> bool" where
  "phase3 stopDepth m = md_ge m stopDepth"

definition rec1 :: "sample list \<Rightarrow> depth \<Rightarrow> real \<Rightarrow> bool" where
  "rec1 rih forceDepth m = (phase1 forceDepth m \<and> near rih m \<noteq> None)"

definition rec2 :: "sample list \<Rightarrow> depth \<Rightarrow> depth \<Rightarrow> real \<Rightarrow> bool" where
  "rec2 tractor forceDepth stopDepth m = (phase2 forceDepth stopDepth m \<and> near tractor m \<noteq> None)"

text \<open>The index of the last element of a list that satisfies \<open>P\<close>.\<close>

fun last_index :: "('a \<Rightarrow> bool) \<Rightarrow> 'a list \<Rightarrow> nat option" where
  "last_index P [] = None"
| "last_index P (x # xs) =
     (case last_index P xs of
        Some j \<Rightarrow> Some (Suc j)
      | None \<Rightarrow> if P x then Some 0 else None)"

text \<open>The POOH value of a chart point, by the priority rule.\<close>

definition pooh_value ::
  "sample list \<Rightarrow> sample list \<Rightarrow> sample list option \<Rightarrow> pooh_source \<Rightarrow> real \<Rightarrow> real option" where
  "pooh_value rih tractor pooh poohSource m =
     (case poohSource of
        SrcOverride \<Rightarrow> (case pooh of Some ps \<Rightarrow> near_pooh ps m | None \<Rightarrow> None)
      | SrcTractor \<Rightarrow> near_pooh tractor m
      | SrcRih \<Rightarrow> near_pooh rih m)"

text \<open>
  The chart point of the main pass at a depth, given the Phase-1 value \<open>v\<close> recorded last
  before it.
\<close>

definition main_point ::
  "sample list \<Rightarrow> sample list \<Rightarrow> sample list option \<Rightarrow> depth \<Rightarrow> depth \<Rightarrow> pooh_source
     \<Rightarrow> real \<Rightarrow> real option \<Rightarrow> stitched" where
  "main_point rih tractor pooh forceDepth stopDepth poohSource m v =
     \<lparr>pt_md = m,
      rih_standard_1 = (if phase1 forceDepth m then near_rih rih m else None),
      rih_standard_2 =
        (if phase1 forceDepth m \<or> phase2 forceDepth stopDepth m then None
         else (case near rih m of Some p \<Rightarrow> s_rih p | None \<Rightarrow> v)),
      rih_tractor =
        (if \<not> phase1 forceDepth m \<and> phase2 forceDepth stopDepth m then near_rih tractor m else None),
      pt_pooh = pooh_value rih tractor pooh poohSource m\<rparr>"

text \<open>
  The Phase-1 value recorded last after a run of depths, and the chart points of the main
  pass over a run of depths, both from the value \<open>v\<close> recorded before the run.
\<close>

fun track1 :: "sample list \<Rightarrow> depth \<Rightarrow> real list \<Rightarrow> real option \<Rightarrow> real option" where
  "track1 rih forceDepth [] v = v"
| "track1 rih forceDepth (m # mds) v =
     track1 rih forceDepth mds (if rec1 rih forceDepth m then near_rih rih m else v)"

fun main_points ::
  "sample list \<Rightarrow> sample list \<Rightarrow> sample list option \<Rightarrow> depth \<Rightarrow> depth \<Rightarrow> pooh_source
     \<Rightarrow> real list \<Rightarrow> real option \<Rightarrow> stitched list" where
  "main_points rih tractor pooh forceDepth stopDepth poohSource [] v = []"
| "main_points rih tractor pooh forceDepth stopDepth poohSource (m # mds) v =
     main_point rih tractor pooh forceDepth stopDepth poohSource m v
       # main_points rih tractor pooh forceDepth stopDepth poohSource mds
           (if rec1 rih forceDepth m then near_rih rih m else v)"

text \<open>
  Example files: a tractor-off run over 0 to 1000 and a tractor-on run over 500 to 1500;
  and a tractor-off file that only starts at 100 beside a tractor-on file with 10 and 50.
\<close>

definition rih_off :: "sample list" where
  "rih_off = [\<lparr>s_md = 0, s_rih = Some 10, s_pooh = Some 1\<rparr>,
              \<lparr>s_md = 400, s_rih = Some 20, s_pooh = Some 2\<rparr>,
              \<lparr>s_md = 1000, s_rih = Some 30, s_pooh = None\<rparr>]"

definition tractor_on :: "sample list" where
  "tractor_on = [\<lparr>s_md = 500, s_rih = Some 5, s_pooh = Some 50\<rparr>,
                 \<lparr>s_md = 900, s_rih = Some 6, s_pooh = Some 60\<rparr>,
                 \<lparr>s_md = 1500, s_rih = Some 7, s_pooh = Some 70\<rparr>]"

definition rih_late :: "sample list" where
  "rih_late = [\<lparr>s_md = 100, s_rih = Some 7, s_pooh = None\<rparr>]"

definition tractor_early :: "sample list" where
  "tractor_early = [\<lparr>s_md = 10, s_rih = Some 3, s_pooh = Some 1\<rparr>,
                    \<lparr>s_md = 50, s_rih = Some 4, s_pooh = Some 2\<rparr>]"

text \<open>
  A tractor-off file whose second row has no \<open>rih\<close> value (\<open>parseSimulationCSV\<close> stores
  null for a missing or unparseable column), beside a tractor-on file over 200 to 300.
\<close>

definition rih_gap :: "sample list" where
  "rih_gap = [\<lparr>s_md = 0, s_rih = Some 10, s_pooh = None\<rparr>,
              \<lparr>s_md = 100, s_rih = None, s_pooh = None\<rparr>]"

definition tractor_deep :: "sample list" where
  "tractor_deep = [\<lparr>s_md = 200, s_rih = Some 5, s_pooh = None\<rparr>,
                   \<lparr>s_md = 300, s_rih = Some 6, s_pooh = None\<rparr>]"

text \<open>
  The state of the \<open>SimulationBuilder\<close> component and its handlers.  A file upload or
  removal sets \<open>files\<close> (to some new value: the reader's callback spreads the \<open>files\<close> it
  closed over) and resets \<open>isStitched\<close>; the two depth inputs set their depth and reset
  \<open>isStitched\<close>; the stitch button runs \<open>handleStitch\<close>.
\<close>

record builder =
  b_files :: sim_files
  b_tractorDepth :: "real option"
  b_stopTractorDepth :: "real option"
  b_chartData :: "stitched list"
  b_isStitched :: bool

datatype event =
  SetFiles sim_files
| SetTractorDepth "real option"
| SetStopTractorDepth "real option"
| Stitch

fun handle_event :: "event \<Rightarrow> builder \<Rightarrow> builder" where
  "handle_event (SetFiles newFiles) b = b\<lparr>b_files := newFiles, b_isStitched := False\<rparr>"
| "handle_event (SetTractorDepth d) b = b\<lparr>b_tractorDepth := d, b_isStitched := False\<rparr>"
| "handle_event (SetStopTractorDepth d) b = b\<lparr>b_stopTractorDepth := d, b_isStitched := False\<rparr>"
| "handle_event Stitch b =
     (case handleStitch (b_files b) (b_tractorDepth b) (b_stopTractorDepth b) of
        None \<Rightarrow> b
      | Some mrg \<Rightarrow> b\<lparr>b_chartData := mrg, b_isStitched := True\<rparr>)"

text \<open>
  The effect with dependencies \<open>[files.rih, files.pooh, isStitched]\<close>: it runs after a
  render in which one of them changed.
\<close>

definition run_effect :: "builder \<Rightarrow> builder \<Rightarrow> builder" where
  "run_effect before b =
     (if f_rih (b_files b) \<noteq> f_rih (b_files before) \<or>
         f_pooh (b_files b) \<noteq> f_pooh (b_files before) \<or>
         b_isStitched b \<noteq> b_isStitched before
      then b\<lparr>b_chartData := autoDisplay (b_files b) (b_isStitched b) (b_chartData b)\<rparr>
      else b)"

definition builder_step :: "event \<Rightarrow> builder \<Rightarrow> builder" where
  "builder_step e b = run_effect b (handle_event e b)"

text \<open>The component after mounting: the effect has run once.\<close>

definition mount :: "sim_files \<Rightarrow> real option \<Rightarrow> real option \<Rightarrow> builder" where
  "mount files tractorDepth stopTractorDepth =
     \<lparr>b_files = files, b_tractorDepth = tractorDepth, b_stopTractorDepth = stopTractorDepth,
      b_chartData = autoDisplay files False [], b_isStitched = False\<rparr>"

inductive reachable :: "builder \<Rightarrow> bool" where
  reach_mount: "reachable (mount files tractorDepth stopTractorDepth)"
| reach_step: "reachable b \<Longrightarrow> reachable (builder_step e b)"

text \<open>
  What holds of every state the component reaches: it is stitched only with both RIH files
  there, and shows the plain display otherwise.
\<close>

definition builder_inv :: "builder \<Rightarrow> bool" where
  "builder_inv b =
     ((b_isStitched b \<longrightarrow> f_tractor (b_files b) \<noteq> None \<and> f_rih (b_files b) \<noteq> None) \<and>
      (\<not> b_isStitched b \<longrightarrow> b_chartData b = autoDisplay (b_files b) False []))"

text \<open>A POOH override file with one sample, near 400.\<close>

definition pooh_override :: "sample list" where
  "pooh_override = [\<lparr>s_md = 400.2, s_rih = None, s_pooh = Some 99\<rparr>]"

section \<open>Properties of calculateTrajectory\<close>

lemma trajectory_loop_skip:
  "sv_md p2 \<le> sv_md p1 \<Longrightarrow>
   trajectory_loop (p1 # p2 # ps) N E TVD = trajectory_loop (p2 # ps) N E TVD"
  by simp

lemma trajectory_loop_step:
  "\<not> sv_md p2 \<le> sv_md p1 \<Longrightarrow>
   trajectory_loop (p1 # p2 # ps) N E TVD =
     \<lparr>tp_x = E + seg_dE p1 p2, tp_y = - (TVD + seg_dTVD p1 p2), tp_z = - (N + seg_dN p1 p2),
      tp_md = sv_md p2, tp_tvd = TVD + seg_dTVD p1 p2\<rparr>
     # trajectory_loop (p2 # ps) (N + seg_dN p1 p2) (E + seg_dE p1 p2) (TVD + seg_dTVD p1 p2)"
  by (simp add: Let_def seg_dN_def seg_dE_def seg_dTVD_def seg_RF_def)

lemma trajectory_loop_single: "trajectory_loop [p] N E TVD = []"
  by simp

lemma dogleg_bounds: "0 \<le> dogleg I1 I2 A1 A2 \<and> dogleg I1 I2 A1 A2 \<le> pi"
  unfolding dogleg_def by (intro arccos_bounded) simp_all

lemma ratioFactor_nonneg:
  assumes "0 \<le> dl" "dl \<le> pi"
  shows "0 \<le> ratioFactor dl"
proof (cases "dl > 0.0001")
  case True
  have "0 \<le> tan (dl / 2)"
  proof (cases "dl = pi")
    case True
    then show ?thesis by (simp add: tan_def)
  next
    case False
    with assms have "dl / 2 < pi / 2" by simp
    with assms show ?thesis by (intro tan_pos_pi2_le) simp_all
  qed
  moreover from True have "0 \<le> 2 / dl" by simp
  ultimately show ?thesis using True by (simp add: ratioFactor_def)
next
  case False
  then show ?thesis by (simp add: ratioFactor_def)
qed

lemma seg_RF_nonneg: "0 \<le> seg_RF p1 p2"
  unfolding seg_RF_def using dogleg_bounds by (intro ratioFactor_nonneg) simp_all

lemma cos_degToRad_nonneg:
  assumes "0 \<le> d" "d \<le> 90"
  shows "0 \<le> cos (degToRad d)"
proof -
  have "degToRad d \<le> pi / 2" using assms pi_gt_zero by (simp add: degToRad_def field_simps)
  moreover have "0 \<le> degToRad d" using assms pi_gt_zero by (simp add: degToRad_def)
  ultimately show ?thesis by (intro cos_ge_zero) (use pi_gt_zero in linarith)+
qed

lemma seg_dTVD_nonneg:
  assumes "sv_md p1 < sv_md p2" "0 \<le> sv_inc p1" "sv_inc p1 \<le> 90" "0 \<le> sv_inc p2" "sv_inc p2 \<le> 90"
  shows "0 \<le> seg_dTVD p1 p2"
proof -
  have "0 \<le> cos (degToRad (sv_inc p1)) + cos (degToRad (sv_inc p2))"
    using assms by (simp add: cos_degToRad_nonneg)
  moreover have "0 \<le> (sv_md p2 - sv_md p1) / 2" using assms by simp
  ultimately show ?thesis unfolding seg_dTVD_def
    using seg_RF_nonneg[of p1 p2] by (intro mult_nonneg_nonneg)
qed

declare trajectory_loop.simps [simp del]

lemma trajectory_loop_tvd_mono:
  "\<forall>s \<in> set (p # ps). 0 \<le> sv_inc s \<and> sv_inc s \<le> 90 \<Longrightarrow>
   sorted (TVD # map tp_tvd (trajectory_loop (p # ps) N E TVD))"
proof (induction ps arbitrary: p N E TVD)
  case Nil
  show ?case by (simp add: trajectory_loop_single)
next
  case (Cons q qs)
  from Cons.prems have q: "\<forall>s \<in> set (q # qs). 0 \<le> sv_inc s \<and> sv_inc s \<le> 90" by simp
  show ?case
  proof (cases "sv_md q \<le> sv_md p")
    case True
    with Cons.IH[OF q] show ?thesis by (simp add: trajectory_loop_skip)
  next
    case False
    with Cons.prems have nn: "0 \<le> seg_dTVD p q" by (intro seg_dTVD_nonneg) simp_all
    from Cons.IH[OF q, of "TVD + seg_dTVD p q" "N + seg_dN p q" "E + seg_dE p q"]
    have "sorted ((TVD + seg_dTVD p q) #
        map tp_tvd (trajectory_loop (q # qs) (N + seg_dN p q) (E + seg_dE p q) (TVD + seg_dTVD p q)))" .
    with nn False show ?thesis
      by (simp add: trajectory_loop_step) force
  qed
qed

lemma calculateTrajectory_tvd_mono:
  "\<forall>s \<in> set ps. 0 \<le> sv_inc s \<and> sv_inc s \<le> 90 \<Longrightarrow>
   sorted (map tp_tvd (calculateTrajectory ps))"
proof (cases ps)
  case Nil
  then show ?thesis by (simp add: calculateTrajectory_def)
next
  case (Cons p qs)
  assume "\<forall>s \<in> set ps. 0 \<le> sv_inc s \<and> sv_inc s \<le> 90"
  with Cons trajectory_loop_tvd_mono[of p qs 0 0 0] show ?thesis
    by (simp add: calculateTrajectory_def)
qed




text \<open>
  Claim C6.  For stations with strictly increasing \<open>md\<close> and every inclination in
  \<open>[0, 90]\<close> degrees, the \<open>tvd\<close> values of the trajectory never decrease from one
  point to the next.
\<close>

theorem calculateTrajectory_tvd_nondecreasing:
  "sorted_wrt (<) (map sv_md ps) \<Longrightarrow>
   \<forall>s \<in> set ps. 0 \<le> sv_inc s \<and> sv_inc s \<le> 90 \<Longrightarrow>
   sorted (map tp_tvd (calculateTrajectory ps)) \<and>
   (\<forall>i. i + 1 < length (calculateTrajectory ps) \<longrightarrow>
        tp_tvd (calculateTrajectory ps ! i) \<le> tp_tvd (calculateTrajectory ps ! (i + 1)))"
proof -
  assume "\<forall>s \<in> set ps. 0 \<le> sv_inc s \<and> sv_inc s \<le> 90"
  then have s: "sorted (map tp_tvd (calculateTrajectory ps))"
    by (rule calculateTrajectory_tvd_mono)
  have "tp_tvd (calculateTrajectory ps ! i) \<le> tp_tvd (calculateTrajectory ps ! (i + 1))"
    if "i + 1 < length (calculateTrajectory ps)" for i
    using sorted_nth_mono[OF s, of i "i + 1"] that by simp
  with s show ?thesis by blast
qed

text \<open>C6 on a well that builds from vertical to horizontal.\<close>

theorem calculateTrajectory_tvd_nondecreasing_witness:
  "sorted_wrt (<) (map sv_md
     [\<lparr>sv_md = 0, sv_inc = 0, sv_azi = 0\<rparr>, \<lparr>sv_md = 500, sv_inc = 30, sv_azi = 10\<rparr>,
      \<lparr>sv_md = 900, sv_inc = 90, sv_azi = 200\<rparr>]) \<and>
   list_all (\<lambda>s. 0 \<le> sv_inc s \<and> sv_inc s \<le> 90)
     [\<lparr>sv_md = 0, sv_inc = 0, sv_azi = 0\<rparr>, \<lparr>sv_md = 500, sv_inc = 30, sv_azi = 10\<rparr>,
      \<lparr>sv_md = 900, sv_inc = 90, sv_azi = 200\<rparr>] \<and>
   sorted (map tp_tvd (calculateTrajectory
     [\<lparr>sv_md = 0, sv_inc = 0, sv_azi = 0\<rparr>, \<lparr>sv_md = 500, sv_inc = 30, sv_azi = 10\<rparr>,
      \<lparr>sv_md = 900, sv_inc = 90, sv_azi = 200\<rparr>]))"
  using calculateTrajectory_tvd_nondecreasing
    [of "[\<lparr>sv_md = 0, sv_inc = 0, sv_azi = 0\<rparr>, \<lparr>sv_md = 500, sv_inc = 30, sv_azi = 10\<rparr>,
          \<lparr>sv_md = 900, sv_inc = 90, sv_azi = 200\<rparr>]"]
  by simp




section \<open>Properties of interpolate\<close>

lemma interpolate_loop_below:
  "sorted_wrt (<) xs \<Longrightarrow> x < xs ! 0 \<Longrightarrow> interpolate_loop i x xs ys = None"
proof (induction i x xs ys rule: interpolate_loop.induct)
  case (1 i x xs ys)
  show ?case
  proof (cases "i + 1 < length xs")
    case True
    have "xs ! 0 \<le> xs ! i"
      using "1.prems"(1) True by (cases "i = 0") (auto simp: sorted_wrt_iff_nth_less less_imp_le)
    with "1.prems"(2) have no: "\<not> (x \<ge> xs ! i \<and> x \<le> xs ! (i + 1))" by simp
    from "1.IH"[OF True no "1.prems"] True no show ?thesis
      by (subst interpolate_loop.simps) simp
  next
    case False
    then show ?thesis by (subst interpolate_loop.simps) simp
  qed
qed

lemma interpolate_loop_above:
  "sorted_wrt (<) xs \<Longrightarrow> x > xs ! (length xs - 1) \<Longrightarrow> interpolate_loop i x xs ys = None"
proof (induction i x xs ys rule: interpolate_loop.induct)
  case (1 i x xs ys)
  show ?case
  proof (cases "i + 1 < length xs")
    case True
    have "xs ! (i + 1) \<le> xs ! (length xs - 1)"
      using "1.prems"(1) True
      by (cases "i + 1 = length xs - 1") (auto simp: sorted_wrt_iff_nth_less less_imp_le)
    with "1.prems"(2) have no: "\<not> (x \<ge> xs ! i \<and> x \<le> xs ! (i + 1))" by simp
    from "1.IH"[OF True no "1.prems"] True no show ?thesis
      by (subst interpolate_loop.simps) simp
  next
    case False
    then show ?thesis by (subst interpolate_loop.simps) simp
  qed
qed

lemma interpolate_loop_inside:
  "i + 1 < length xs \<Longrightarrow> xs ! i \<le> x \<Longrightarrow> x \<le> xs ! (length xs - 1) \<Longrightarrow>
   \<exists>j. i \<le> j \<and> j + 1 < length xs \<and> xs ! j \<le> x \<and> x \<le> xs ! (j + 1) \<and>
       interpolate_loop i x xs ys =
         Some (lerp x (xs ! j) (xs ! (j + 1)) (js_nth ys j) (js_nth ys (j + 1)))"
proof (induction i x xs ys rule: interpolate_loop.induct)
  case (1 i x xs ys)
  show ?case
  proof (cases "x \<le> xs ! (i + 1)")
    case True
    with "1.prems" have "interpolate_loop i x xs ys =
        Some (lerp x (xs ! i) (xs ! (i + 1)) (js_nth ys i) (js_nth ys (i + 1)))"
      by (subst interpolate_loop.simps) simp
    with True "1.prems" show ?thesis by blast
  next
    case False
    then have no: "\<not> (x \<ge> xs ! i \<and> x \<le> xs ! (i + 1))" by simp
    have more: "(i + 1) + 1 < length xs"
    proof (rule ccontr)
      assume "\<not> (i + 1) + 1 < length xs"
      with "1.prems"(1) have "i + 1 = length xs - 1" by simp
      with False "1.prems"(3) show False by simp
    qed
    from False have "xs ! (i + 1) \<le> x" by simp
    from "1.IH"[OF "1.prems"(1) no more this "1.prems"(3)]
    obtain j where j: "i + 1 \<le> j" "j + 1 < length xs" "xs ! j \<le> x" "x \<le> xs ! (j + 1)"
      "interpolate_loop (i + 1) x xs ys =
         Some (lerp x (xs ! j) (xs ! (j + 1)) (js_nth ys j) (js_nth ys (j + 1)))"
      by blast
    have "interpolate_loop i x xs ys = interpolate_loop (i + 1) x xs ys"
      using False "1.prems"(1) by (subst interpolate_loop.simps) simp
    with j show ?thesis by (intro exI[of _ j]) simp
  qed
qed

lemma lerp_Num:
  "x0 < x1 \<Longrightarrow> i + 1 < length ys \<Longrightarrow>
   lerp x x0 x1 (js_nth ys i) (js_nth ys (i + 1)) =
     Num (ys ! i + ((x - x0) / (x1 - x0)) * (ys ! (i + 1) - ys ! i))"
  by (simp add: lerp_def js_nth_def)

text \<open>
  What \<open>interpolate\<close> returns: \<open>0\<close> for a missing or empty \<open>xArray\<close>; for strictly
  increasing knots with one \<open>y\<close> per knot, the first \<open>y\<close> strictly below the first knot, the
  last \<open>y\<close> strictly above the last knot, and from two knots on, inside the domain, the
  linear interpolant of an interval that contains \<open>x\<close>; the three documented values
  \<open>interpolate(50, [0,100], [0,200]) = 100\<close>, \<open>interpolate(-10, ...) = 0\<close> and
  \<open>interpolate(150, ...) = 200\<close>.
\<close>

lemma interpolate_clamped_cases:
  "interpolate x None ys = Num 0 \<and>
   interpolate x (Some []) ys = Num 0 \<and>
   (\<forall>xs. sorted_wrt (<) xs \<and> xs \<noteq> [] \<and> length ys = length xs \<longrightarrow>
      (x < hd xs \<longrightarrow> interpolate x (Some xs) ys = Num (hd ys)) \<and>
      (x > last xs \<longrightarrow> interpolate x (Some xs) ys = Num (last ys)) \<and>
      (hd xs \<le> x \<and> x \<le> last xs \<and> 2 \<le> length xs \<longrightarrow>
         (\<exists>i. i + 1 < length xs \<and> xs ! i \<le> x \<and> x \<le> xs ! (i + 1) \<and>
              interpolate x (Some xs) ys =
                Num (ys ! i + ((x - xs ! i) / (xs ! (i + 1) - xs ! i)) * (ys ! (i + 1) - ys ! i))))) \<and>
   interpolate 50 (Some [0, 100]) [0, 200] = Num 100 \<and>
   interpolate (- 10) (Some [0, 100]) [0, 200] = Num 0 \<and>
   interpolate 150 (Some [0, 100]) [0, 200] = Num 200"
proof (intro conjI allI impI)
  show "interpolate x None ys = Num 0" by (simp add: interpolate_def)
  show "interpolate x (Some []) ys = Num 0" by (simp add: interpolate_def)
next
  fix xs assume h: "sorted_wrt (<) xs \<and> xs \<noteq> [] \<and> length ys = length xs" and lt: "x < hd xs"
  then have "x < xs ! 0" by (simp add: hd_conv_nth)
  with h have "interpolate_loop 0 x xs ys = None" by (simp add: interpolate_loop_below)
  moreover from h have "ys \<noteq> []" by auto
  ultimately show "interpolate x (Some xs) ys = Num (hd ys)"
    using h lt by (simp add: interpolate_def hd_conv_nth js_ret_def js_nth_def)
next
  fix xs assume h: "sorted_wrt (<) xs \<and> xs \<noteq> [] \<and> length ys = length xs" and gt: "x > last xs"
  then have g: "x > xs ! (length xs - 1)" by (simp add: last_conv_nth)
  with h have "interpolate_loop 0 x xs ys = None" by (simp add: interpolate_loop_above)
  moreover have "xs ! 0 \<le> xs ! (length xs - 1)"
    using h by (cases "length xs - 1 = 0") (auto simp: sorted_wrt_iff_nth_less less_imp_le)
  moreover from h have "ys \<noteq> []" by auto
  ultimately show "interpolate x (Some xs) ys = Num (last ys)"
    using h g by (auto simp add: interpolate_def last_conv_nth js_ret_def js_nth_def)
next
  fix xs assume h: "sorted_wrt (<) xs \<and> xs \<noteq> [] \<and> length ys = length xs"
    and d: "hd xs \<le> x \<and> x \<le> last xs \<and> 2 \<le> length xs"
  then have "0 + 1 < length xs" "xs ! 0 \<le> x" "x \<le> xs ! (length xs - 1)"
    by (simp_all add: hd_conv_nth last_conv_nth)
  from interpolate_loop_inside[OF this, of ys]
  obtain j where j: "j + 1 < length xs" "xs ! j \<le> x" "x \<le> xs ! (j + 1)"
      "interpolate_loop 0 x xs ys =
         Some (lerp x (xs ! j) (xs ! (j + 1)) (js_nth ys j) (js_nth ys (j + 1)))"
    by blast
  have "xs ! j < xs ! (j + 1)" using h j(1) by (simp add: sorted_wrt_iff_nth_less)
  then have "lerp x (xs ! j) (xs ! (j + 1)) (js_nth ys j) (js_nth ys (j + 1)) =
      Num (ys ! j + ((x - xs ! j) / (xs ! (j + 1) - xs ! j)) * (ys ! (j + 1) - ys ! j))"
    using h j(1) by (intro lerp_Num) simp_all
  with j(4) h have "interpolate x (Some xs) ys =
      Num (ys ! j + ((x - xs ! j) / (xs ! (j + 1) - xs ! j)) * (ys ! (j + 1) - ys ! j))"
    by (simp add: interpolate_def)
  with j show "\<exists>i. i + 1 < length xs \<and> xs ! i \<le> x \<and> x \<le> xs ! (i + 1) \<and>
              interpolate x (Some xs) ys =
                Num (ys ! i + ((x - xs ! i) / (xs ! (i + 1) - xs ! i)) * (ys ! (i + 1) - ys ! i))"
    by blast
next
  show "interpolate 50 (Some [0, 100]) [0, 200] = Num 100"
    by (simp add: interpolate_def interpolate_loop.simps lerp_def js_nth_def)
  show "interpolate (- 10) (Some [0, 100]) [0, 200] = Num 0"
    by (simp add: interpolate_def interpolate_loop.simps lerp_def js_nth_def js_ret_def)
  show "interpolate 150 (Some [0, 100]) [0, 200] = Num 200"
    by (simp add: interpolate_def interpolate_loop.simps lerp_def js_nth_def js_ret_def)
qed

text \<open>
  Claim C7 fails on the code for a single knot.  \<open>interpolate(5, [5], [7])\<close>: \<open>x\<close> is inside
  the domain \<open>[5, 5]\<close>, where the claim gives the value at the knot, \<open>7\<close>, as the two clamps
  beside it do (\<open>interpolate(4, [5], [7]) = 7\<close> and \<open>interpolate(6, [5], [7]) = 7\<close>).  The
  loop has no interval to try and both clamps are strict, so the code falls through to
  its final \<open>return 0\<close>.  A one-station survey reaches this through \<open>getMD\<close>, whose
  knots are then the single \<open>tvd\<close> of the surface point.
\<close>

theorem interpolate_single_knot_returns_zero:
  "interpolate 5 (Some [5]) [7] = Num 0 \<and>
   interpolate 4 (Some [5]) [7] = Num 7 \<and>
   interpolate 6 (Some [5]) [7] = Num 7"
  by (simp add: interpolate_def interpolate_loop.simps js_ret_def js_nth_def)

section \<open>Properties of calculateIDFromODWeight\<close>

lemma toFixed_mono: "0 \<le> a \<Longrightarrow> a \<le> b \<Longrightarrow> toFixed d a \<le> toFixed d b"
proof -
  assume a: "0 \<le> a" "a \<le> b"
  then have "a * 10 ^ d + 1 / 2 \<le> b * 10 ^ d + 1 / 2" by (simp add: mult_right_mono)
  then have "\<lfloor>a * 10 ^ d + 1 / 2\<rfloor> \<le> \<lfloor>b * 10 ^ d + 1 / 2\<rfloor>" by (rule floor_mono)
  then have "(of_int \<lfloor>a * 10 ^ d + 1 / 2\<rfloor> :: real) / 10 ^ d \<le> of_int \<lfloor>b * 10 ^ d + 1 / 2\<rfloor> / 10 ^ d"
    by (simp add: divide_right_mono)
  with a show ?thesis by (simp add: toFixed_def)
qed

lemma calculateID_Some_unfold:
  "calculateIDFromODWeight (Some od) (Some w) uOD uW uID =
     (if od \<le> 0 \<or> w \<le> 0 \<or> radicand uOD uW od w \<le> 0 then None
      else Some (toFixed 3 (fromInch uID (sqrt (radicand uOD uW od w)))))"
  by (auto simp add: calculateIDFromODWeight_def radicand_def odInch_of_def wLbFt_of_def
        fromInch_def Let_def)

lemma root_below_od:
  assumes "0 < od" "0 < w" "0 < radicand uOD uW od w" "(uOD = ''in'') = (uID = ''in'')"
  shows "fromInch uID (sqrt (radicand uOD uW od w)) < od"
proof -
  have wpos: "0 < wLbFt_of uW w / 2.67" using assms(2) by (simp add: wLbFt_of_def)
  have opos: "0 < odInch_of uOD od" using assms(1) by (simp add: odInch_of_def)
  have "radicand uOD uW od w < (odInch_of uOD od)\<^sup>2"
    using wpos by (simp add: radicand_def power2_eq_square)
  with opos have "sqrt (radicand uOD uW od w) < odInch_of uOD od"
    by (intro real_less_lsqrt) simp_all
  with assms(4) show ?thesis
    by (auto simp add: fromInch_def odInch_of_def field_simps)
qed

text \<open>
  Claim C8, amended.  \<open>calculateIDFromODWeight\<close> returns \<open>null\<close> exactly when an input
  is missing or non-positive or the radicand \<open>odInch\<^sup>2 - weightLbFt / 2.67\<close> (after the
  unit conversions) is non-positive; otherwise it returns the positive square root,
  converted to the requested unit and rounded to 3 decimals.  When the units of \<open>od\<close> and
  \<open>id\<close> match, the root before rounding is strictly below \<open>od\<close>, and the returned
  \<open>id\<close> is at most \<open>od\<close> rounded to 3 decimals.
\<close>

theorem calculateIDFromODWeight_spec:
  "(calculateIDFromODWeight od weight unitOD unitWeight unitID = None \<longleftrightarrow>
      (od = None \<or> weight = None \<or> the od \<le> 0 \<or> the weight \<le> 0 \<or>
       radicand unitOD unitWeight (the od) (the weight) \<le> 0)) \<and>
   (\<forall>i. calculateIDFromODWeight od weight unitOD unitWeight unitID = Some i \<longrightarrow>
      0 < sqrt (radicand unitOD unitWeight (the od) (the weight)) \<and>
      i = toFixed 3 (fromInch unitID (sqrt (radicand unitOD unitWeight (the od) (the weight)))) \<and>
      ((unitOD = ''in'') = (unitID = ''in'') \<longrightarrow>
         fromInch unitID (sqrt (radicand unitOD unitWeight (the od) (the weight))) < the od \<and>
         i \<le> toFixed 3 (the od)))"
proof (cases od)
  case None
  then show ?thesis by (simp add: calculateIDFromODWeight_def)
next
  case (Some o1)
  note o1 = this
  show ?thesis
  proof (cases weight)
    case None
    with o1 show ?thesis by (simp add: calculateIDFromODWeight_def)
  next
    case (Some w1)
    show ?thesis
    proof (cases "o1 \<le> 0 \<or> w1 \<le> 0 \<or> radicand unitOD unitWeight o1 w1 \<le> 0")
      case True
      with o1 Some show ?thesis by (simp add: calculateID_Some_unfold)
    next
      case False
      then have pos: "0 < o1" "0 < w1" "0 < radicand unitOD unitWeight o1 w1" by simp_all
      let ?r = "fromInch unitID (sqrt (radicand unitOD unitWeight o1 w1))"
      have r0: "0 \<le> ?r" using pos(3) by (simp add: fromInch_def)
      have lt: "?r < o1" if "(unitOD = ''in'') = (unitID = ''in'')"
        using root_below_od[OF pos that] .
      have le: "toFixed 3 ?r \<le> toFixed 3 o1" if "(unitOD = ''in'') = (unitID = ''in'')"
        using lt[OF that] r0 by (intro toFixed_mono) simp_all
      from False o1 Some pos lt le show ?thesis
        by (simp add: calculateID_Some_unfold)
    qed
  qed
qed

lemma sqrt_9999: "\<lfloor>sqrt (9999 / 10000) * 1000 + 1 / 2\<rfloor> = 1000"
proof (rule floor_unique)
  have "(9995 / 10000 :: real) \<le> sqrt (9999 / 10000)"
    by (rule real_le_rsqrt) (simp add: power2_eq_square)
  then show "of_int 1000 \<le> sqrt (9999 / 10000) * 1000 + 1 / 2" by simp
  have "sqrt (9999 / 10000) < (10005 / 10000 :: real)"
    by (rule real_less_lsqrt) (simp_all add: power2_eq_square)
  then show "sqrt (9999 / 10000) * 1000 + 1 / 2 < of_int 1000 + 1" by simp
qed

text \<open>
  Claim C8 as stated fails in its last part: for \<open>od = 1 in\<close> and
  \<open>weight = 0.000267 lb/ft\<close> the root is \<open>sqrt 0.9999\<close>, which rounds to \<open>1.000\<close>:
  the returned \<open>id\<close> equals \<open>od\<close> and is not strictly less.
\<close>

theorem calculateIDFromODWeight_not_below_od_counterexample:
  "calculateIDFromODWeight (Some 1) (Some 0.000267) ''in'' ''lb/ft'' ''in'' = Some 1 \<and>
   \<not> the (calculateIDFromODWeight (Some 1) (Some 0.000267) ''in'' ''lb/ft'' ''in'') < 1"
proof -
  have "radicand ''in'' ''lb/ft'' 1 0.000267 = 9999 / 10000"
    by (simp add: radicand_def odInch_of_def wLbFt_of_def)
  then have "calculateIDFromODWeight (Some 1) (Some 0.000267) ''in'' ''lb/ft'' ''in'' =
      Some (toFixed 3 (sqrt (9999 / 10000)))"
    by (simp only: calculateID_Some_unfold fromInch_def) simp
  also have "toFixed 3 (sqrt (9999 / 10000)) = 1"
    using sqrt_9999 by (simp add: toFixed_def)
  finally show ?thesis by simp
qed

lemma sqrt_4: "\<lfloor>sqrt 4 * 1000 + 1 / 2\<rfloor> = 2000"
proof -
  have "sqrt 4 = 2" using real_sqrt_abs[of 2] by simp
  then show ?thesis by simp
qed

text \<open>
  The amended C8 at \<open>od = 3 in\<close>, \<open>weight = 13.35 lb/ft\<close> (radicand \<open>4\<close>, \<open>id = 2\<close>), at
  \<open>od = 1 cm\<close>, \<open>weight = 1000 kg/m\<close>, and at a missing \<open>od\<close>.
\<close>

theorem calculateIDFromODWeight_spec_witness:
  "calculateIDFromODWeight (Some 3) (Some 13.35) ''in'' ''lb/ft'' ''in'' = Some 2 \<and>
   (2::real) \<le> toFixed 3 3 \<and>
   calculateIDFromODWeight (Some 1) (Some 1000) ''cm'' ''kg/m'' ''cm'' = None \<and>
   calculateIDFromODWeight None (Some 1000) ''cm'' ''kg/m'' ''cm'' = None"
proof -
  have r: "radicand ''in'' ''lb/ft'' 3 13.35 = 4"
    by (simp add: radicand_def odInch_of_def wLbFt_of_def)
  have "calculateIDFromODWeight (Some 3) (Some 13.35) ''in'' ''lb/ft'' ''in'' =
      Some (toFixed 3 (sqrt 4))"
    using r by (simp only: calculateID_Some_unfold fromInch_def) simp
  also have "toFixed 3 (sqrt 4) = 2"
    using sqrt_4 by (simp add: toFixed_def)
  finally have v: "calculateIDFromODWeight (Some 3) (Some 13.35) ''in'' ''lb/ft'' ''in'' = Some 2" .
  have "radicand ''cm'' ''kg/m'' 1 1000 \<le> 0"
    by (simp add: radicand_def odInch_of_def wLbFt_of_def)
  with calculateIDFromODWeight_spec[of "Some 1" "Some 1000" "''cm''" "''kg/m''" "''cm''"]
  have n: "calculateIDFromODWeight (Some 1) (Some 1000) ''cm'' ''kg/m'' ''cm'' = None" by simp
  from calculateIDFromODWeight_spec[of None "Some 1000" "''cm''" "''kg/m''" "''cm''"]
  have m: "calculateIDFromODWeight None (Some 1000) ''cm'' ''kg/m'' ''cm'' = None" by simp
  from calculateIDFromODWeight_spec[of "Some 3" "Some 13.35" "''in''" "''lb/ft''" "''in''"] v
  have "(2::real) \<le> toFixed 3 3" by simp
  with v n m show ?thesis by simp
qed

section \<open>Properties of the pressure profile\<close>






















section \<open>Properties of parseSurveyData\<close>


























section \<open>Properties of the run stitcher\<close>

subsection \<open>The main pass, step by step\<close>

lemma md_ge_iff: "md_ge m d \<longleftrightarrow> \<not> md_lt m d"
  by (cases d) auto

lemma md_lt_stopDepth: "md_lt m fd \<Longrightarrow> md_lt m (stopDepth_of stop fd)"
  by (cases fd; cases stop) (auto simp: stopDepth_of_def)

lemma phase2_not_phase1: "phase2 fd sd m \<Longrightarrow> \<not> phase1 fd m"
  by (simp add: phase2_def phase1_def md_ge_iff)

lemma stitch_step_eq:
  "stitch_step rih tractor pooh fd sd src m idx s =
     s\<lparr>merged := merged s @ [main_point rih tractor pooh fd sd src m (lastRihStandard1Value s)],
       lastRihStandard1Value := (if rec1 rih fd m then near_rih rih m else lastRihStandard1Value s),
       lastRihStandard1Index := (if rec1 rih fd m then Some idx else lastRihStandard1Index s),
       lastRihTractorValue :=
         (if rec2 tractor fd sd m then near_rih tractor m else lastRihTractorValue s),
       lastRihTractorIndex :=
         (if rec2 tractor fd sd m then Some idx else lastRihTractorIndex s)\<rparr>"
  by (cases "near rih m"; cases "near tractor m"; cases src; cases pooh; cases "lastRihStandard1Value s")
     (auto simp add: stitch_step_def rih_logic_def pooh_logic_def main_point_def pooh_value_def
        near_rih_def near_pooh_def rec1_def rec2_def phase1_def phase2_def Let_def md_ge_iff
        split: option.splits)

lemma main_pass_merged:
  "merged (main_pass rih tractor pooh fd sd src mds idx s) =
     merged s @ main_points rih tractor pooh fd sd src mds (lastRihStandard1Value s)"
  by (induction mds arbitrary: idx s) (simp_all add: stitch_step_eq)

lemma main_pass_value1:
  "lastRihStandard1Value (main_pass rih tractor pooh fd sd src mds idx s) =
     track1 rih fd mds (lastRihStandard1Value s)"
  by (induction mds arbitrary: idx s) (simp_all add: stitch_step_eq)

lemma last_index_less: "last_index P xs = Some j \<Longrightarrow> j < length xs \<and> P (xs ! j)"
  by (induction xs arbitrary: j) (auto split: option.splits if_splits)

lemma last_index_None: "last_index P xs = None \<longleftrightarrow> (\<forall>x \<in> set xs. \<not> P x)"
  by (induction xs) (auto split: option.splits)

lemma last_index_last:
  "last_index P xs = Some j \<Longrightarrow> j < k \<Longrightarrow> k < length xs \<Longrightarrow> \<not> P (xs ! k)"
proof (induction xs arbitrary: j k)
  case Nil
  then show ?case by simp
next
  case (Cons x xs)
  show ?case
  proof (cases "last_index P xs")
    case None
    with Cons.prems have "\<forall>y \<in> set xs. \<not> P y" by (simp add: last_index_None)
    moreover from Cons.prems have "k \<noteq> 0" by simp
    ultimately show ?thesis using Cons.prems(3) by (cases k) auto
  next
    case (Some j')
    with Cons.prems(1) have j: "j = Suc j'" by simp
    with Cons.prems obtain k' where k: "k = Suc k'" "j' < k'" "k' < length xs" by (cases k) auto
    from Cons.IH[OF Some k(2,3)] k show ?thesis by simp
  qed
qed

lemma last_index_append:
  "last_index P (xs @ ys) =
     (case last_index P ys of Some j \<Rightarrow> Some (length xs + j) | None \<Rightarrow> last_index P xs)"
  by (induction xs) (auto split: option.splits)

lemma last_index_take:
  assumes "\<forall>k. i \<le> k \<and> k < length xs \<longrightarrow> \<not> P (xs ! k)"
  shows "last_index P (take i xs) = last_index P xs"
proof -
  have "\<forall>x \<in> set (drop i xs). \<not> P x"
    using assms by (auto simp: in_set_conv_nth)
  then have "last_index P (drop i xs) = None" by (simp add: last_index_None)
  with last_index_append[of P "take i xs" "drop i xs"] show ?thesis by simp
qed

lemma main_pass_index1:
  "lastRihStandard1Index (main_pass rih tractor pooh fd sd src mds idx s) =
     (case last_index (rec1 rih fd) mds of
        Some j \<Rightarrow> Some (idx + j) | None \<Rightarrow> lastRihStandard1Index s)"
  by (induction mds arbitrary: idx s) (auto simp add: stitch_step_eq split: option.splits)

lemma main_pass_index2:
  "lastRihTractorIndex (main_pass rih tractor pooh fd sd src mds idx s) =
     (case last_index (rec2 tractor fd sd) mds of
        Some j \<Rightarrow> Some (idx + j) | None \<Rightarrow> lastRihTractorIndex s)"
  by (induction mds arbitrary: idx s) (auto simp add: stitch_step_eq split: option.splits)

lemma main_pass_value2:
  "lastRihTractorValue (main_pass rih tractor pooh fd sd src mds idx s) =
     (case last_index (rec2 tractor fd sd) mds of
        Some j \<Rightarrow> near_rih tractor (mds ! j) | None \<Rightarrow> lastRihTractorValue s)"
  by (induction mds arbitrary: idx s) (auto simp add: stitch_step_eq split: option.splits)

lemma track1_last_index:
  "track1 rih fd mds v =
     (case last_index (rec1 rih fd) mds of Some j \<Rightarrow> near_rih rih (mds ! j) | None \<Rightarrow> v)"
  by (induction mds arbitrary: v) (auto split: option.splits)

lemma main_points_length: "length (main_points rih tractor pooh fd sd src mds v) = length mds"
  by (induction mds arbitrary: v) simp_all

lemma main_points_nth:
  "i < length mds \<Longrightarrow>
   main_points rih tractor pooh fd sd src mds v ! i =
     main_point rih tractor pooh fd sd src (mds ! i) (track1 rih fd (take i mds) v)"
proof (induction mds arbitrary: v i)
  case Nil
  then show ?case by simp
next
  case (Cons m mds)
  show ?case
  proof (cases i)
    case 0
    then show ?thesis by simp
  next
    case (Suc j)
    with Cons.prems have "j < length mds" by simp
    from Cons.IH[OF this] Suc show ?thesis by simp
  qed
qed

subsection \<open>The main pass as a whole\<close>

lemma js_max_Max:
  fixes xs :: "real list"
  assumes "xs \<noteq> []"
  shows "js_max xs = Fin (Max (set xs))"
proof (cases xs)
  case Nil
  with assms show ?thesis by simp
next
  case (Cons a list)
  have "Max (set (a # list)) = fold max list a" by (rule Max.set_eq_fold)
  with Cons show ?thesis by (simp add: js_max_def)
qed

lemma forceDepth_of_eq:
  "rih \<noteq> [] \<Longrightarrow>
   forceDepth_of tractorDepth rih =
     (if tractorDepth = None \<or> tractorDepth = Some 0 then Fin (Max (s_md ` set rih))
      else Fin (the tractorDepth))"
  by (cases tractorDepth) (auto simp add: forceDepth_of_def js_max_Max)

lemma stopDepth_of_eq:
  "stopDepth_of stop fd =
     (if (\<exists>s. stop = Some s \<and> md_gt s fd) then Fin (the stop) else PosInf)"
  by (cases stop) (auto simp add: stopDepth_of_def)

lemma allMDs_of_props:
  "sorted (allMDs_of rih tractor pooh) \<and> distinct (allMDs_of rih tractor pooh) \<and>
   set (allMDs_of rih tractor pooh) =
     s_md ` set rih \<union> s_md ` set tractor \<union> (case pooh of Some ps \<Rightarrow> s_md ` set ps | None \<Rightarrow> {})"
  by (cases pooh) (auto simp add: allMDs_of_def)

lemma stitch_main_length:
  "length (merged (stitch_main rih tractor pooh td stop)) = length (allMDs_of rih tractor pooh)"
  by (simp add: stitch_main_def Let_def main_pass_merged init_state_def main_points_length)

lemma stitch_main_nth:
  "i < length (allMDs_of rih tractor pooh) \<Longrightarrow>
   merged (stitch_main rih tractor pooh td stop) ! i =
     main_point rih tractor pooh (forceDepth_of td rih) (stopDepth_of stop (forceDepth_of td rih))
       (poohSource_of \<lparr>f_rih = Some rih, f_tractor = Some tractor, f_pooh = pooh\<rparr>)
       (allMDs_of rih tractor pooh ! i)
       (track1 rih (forceDepth_of td rih) (take i (allMDs_of rih tractor pooh)) None)"
  by (simp add: stitch_main_def Let_def main_pass_merged init_state_def main_points_nth)

lemma phases_cover:
  "phase1 fd m \<or> phase2 fd (stopDepth_of stop fd) m \<or> phase3 (stopDepth_of stop fd) m"
  by (auto simp add: phase1_def phase2_def phase3_def md_ge_iff)

lemma phases_apart:
  "(phase1 fd m \<longrightarrow> \<not> phase2 fd (stopDepth_of stop fd) m \<and> \<not> phase3 (stopDepth_of stop fd) m) \<and>
   (phase2 fd (stopDepth_of stop fd) m \<longrightarrow> \<not> phase3 (stopDepth_of stop fd) m)"
  using md_lt_stopDepth[of m fd stop]
  by (auto simp add: phase1_def phase2_def phase3_def md_ge_iff)

lemma main_point_fields:
  "pt_md (main_point rih tractor pooh fd (stopDepth_of stop fd) src m v) = m \<and>
   (phase1 fd m \<longrightarrow>
      rih_standard_1 (main_point rih tractor pooh fd (stopDepth_of stop fd) src m v) = near_rih rih m \<and>
      rih_tractor (main_point rih tractor pooh fd (stopDepth_of stop fd) src m v) = None \<and>
      rih_standard_2 (main_point rih tractor pooh fd (stopDepth_of stop fd) src m v) = None) \<and>
   (phase2 fd (stopDepth_of stop fd) m \<longrightarrow>
      rih_tractor (main_point rih tractor pooh fd (stopDepth_of stop fd) src m v) = near_rih tractor m \<and>
      rih_standard_1 (main_point rih tractor pooh fd (stopDepth_of stop fd) src m v) = None \<and>
      rih_standard_2 (main_point rih tractor pooh fd (stopDepth_of stop fd) src m v) = None) \<and>
   (phase3 (stopDepth_of stop fd) m \<longrightarrow>
      rih_standard_1 (main_point rih tractor pooh fd (stopDepth_of stop fd) src m v) = None \<and>
      rih_tractor (main_point rih tractor pooh fd (stopDepth_of stop fd) src m v) = None \<and>
      rih_standard_2 (main_point rih tractor pooh fd (stopDepth_of stop fd) src m v) =
        (case near rih m of Some p \<Rightarrow> s_rih p | None \<Rightarrow> v))"
  using phases_apart[of fd m stop] phase2_not_phase1[of fd "stopDepth_of stop fd" m]
  by (auto simp add: main_point_def)

subsection \<open>The connectors\<close>

lemma stitch_main_state:
  "lastRihStandard1Index (stitch_main rih tractor pooh td stop) =
     last_index (rec1 rih (forceDepth_of td rih)) (allMDs_of rih tractor pooh) \<and>
   lastRihStandard1Value (stitch_main rih tractor pooh td stop) =
     (case last_index (rec1 rih (forceDepth_of td rih)) (allMDs_of rih tractor pooh) of
        Some j \<Rightarrow> near_rih rih (allMDs_of rih tractor pooh ! j) | None \<Rightarrow> None) \<and>
   lastRihTractorIndex (stitch_main rih tractor pooh td stop) =
     last_index (rec2 tractor (forceDepth_of td rih) (stopDepth_of stop (forceDepth_of td rih)))
       (allMDs_of rih tractor pooh) \<and>
   lastRihTractorValue (stitch_main rih tractor pooh td stop) =
     (case last_index (rec2 tractor (forceDepth_of td rih) (stopDepth_of stop (forceDepth_of td rih)))
             (allMDs_of rih tractor pooh) of
        Some j \<Rightarrow> near_rih tractor (allMDs_of rih tractor pooh ! j) | None \<Rightarrow> None)"
  by (simp add: stitch_main_def Let_def main_pass_index1 main_pass_index2 main_pass_value1
        main_pass_value2 track1_last_index init_state_def split: option.splits)

lemma connect1_eq:
  fixes rih tractor :: "sample list" and pooh :: "sample list option" and td stop :: "real option"
  defines "fd \<equiv> forceDepth_of td rih"
  defines "sd \<equiv> stopDepth_of stop (forceDepth_of td rih)"
  defines "mds \<equiv> allMDs_of rih tractor pooh"
  defines "s \<equiv> stitch_main rih tractor pooh td stop"
  shows "connect1 sd s (merged s) =
     (case last_index (rec1 rih fd) mds of
        None \<Rightarrow> merged s
      | Some i \<Rightarrow> (merged s)[i := (merged s ! i)\<lparr>rih_tractor := near_rih rih (mds ! i)\<rparr>])"
proof (cases "last_index (rec1 rih fd) mds")
  case None
  then show ?thesis
    using stitch_main_state[of rih tractor pooh td stop]
    by (simp add: connect1_def s_def fd_def mds_def)
next
  case (Some i)
  then have i: "i < length mds" "rec1 rih fd (mds ! i)" by (simp_all add: last_index_less)
  then have p1: "phase1 fd (mds ! i)" by (simp add: rec1_def)
  have len: "i < length (merged s)" using i(1) by (simp add: s_def mds_def stitch_main_length)
  have pt: "merged s ! i = main_point rih tractor pooh fd sd
       (poohSource_of \<lparr>f_rih = Some rih, f_tractor = Some tractor, f_pooh = pooh\<rparr>)
       (mds ! i) (track1 rih fd (take i mds) None)"
    using i(1) unfolding s_def mds_def fd_def sd_def by (rule stitch_main_nth)
  have f: "pt_md (merged s ! i) = mds ! i" "rih_tractor (merged s ! i) = None"
    using p1 main_point_fields[of rih tractor pooh fd stop _ "mds ! i"]
    unfolding pt sd_def fd_def[symmetric] by simp_all
  have lt: "md_lt (mds ! i) sd"
    using p1 md_lt_stopDepth[of "mds ! i" fd stop] by (simp add: phase1_def sd_def fd_def)
  have st: "lastRihStandard1Index s = Some i" "lastRihStandard1Value s = near_rih rih (mds ! i)"
    using stitch_main_state[of rih tractor pooh td stop] Some
    by (simp_all add: s_def fd_def mds_def)
  show ?thesis using Some len f lt st by (simp add: connect1_def)
qed

lemma connect2_eq:
  fixes rih tractor :: "sample list" and pooh :: "sample list option" and td stop :: "real option"
  defines "fd \<equiv> forceDepth_of td rih"
  defines "sd \<equiv> stopDepth_of stop (forceDepth_of td rih)"
  defines "mds \<equiv> allMDs_of rih tractor pooh"
  defines "s \<equiv> stitch_main rih tractor pooh td stop"
  assumes m1: "length m1 = length (merged s)"
    and s2: "\<forall>j < length m1. rih_standard_2 (m1 ! j) = rih_standard_2 (merged s ! j)"
  shows "connect2 s m1 =
     (case last_index (rec2 tractor fd sd) mds of
        None \<Rightarrow> m1
      | Some i \<Rightarrow>
          if i + 1 < length mds \<and> rih_standard_2 (merged s ! (i + 1)) \<noteq> None
          then m1[i := (m1 ! i)\<lparr>rih_standard_2 := near_rih tractor (mds ! i)\<rparr>]
          else m1)"
proof (cases "last_index (rec2 tractor fd sd) mds")
  case None
  then show ?thesis
    using stitch_main_state[of rih tractor pooh td stop]
    by (simp add: connect2_def s_def fd_def sd_def mds_def)
next
  case (Some i)
  then have i: "i < length mds" "rec2 tractor fd sd (mds ! i)" by (simp_all add: last_index_less)
  then have p2: "phase2 fd sd (mds ! i)" by (simp add: rec2_def)
  have lens: "length (merged s) = length mds" by (simp add: s_def mds_def stitch_main_length)
  have pt: "merged s ! i = main_point rih tractor pooh fd sd
       (poohSource_of \<lparr>f_rih = Some rih, f_tractor = Some tractor, f_pooh = pooh\<rparr>)
       (mds ! i) (track1 rih fd (take i mds) None)"
    using i(1) unfolding s_def mds_def fd_def sd_def by (rule stitch_main_nth)
  have "rih_standard_2 (merged s ! i) = None"
    using p2 main_point_fields[of rih tractor pooh fd stop _ "mds ! i"]
    unfolding pt sd_def fd_def[symmetric] by simp
  with s2 i(1) m1 lens have z: "rih_standard_2 (m1 ! i) = None" by simp
  have st: "lastRihTractorIndex s = Some i" "lastRihTractorValue s = near_rih tractor (mds ! i)"
    using stitch_main_state[of rih tractor pooh td stop] Some
    by (simp_all add: s_def fd_def sd_def mds_def)
  show ?thesis
  proof (cases "i + 1 < length mds")
    case True
    with s2 m1 lens have "rih_standard_2 (m1 ! (i + 1)) = rih_standard_2 (merged s ! (i + 1))" by simp
    with True Some i(1) m1 lens z st show ?thesis by (simp add: connect2_def js_nth_def)
  next
    case False
    with Some i(1) m1 lens z st show ?thesis by (simp add: connect2_def js_nth_def)
  qed
qed

lemma handleStitch_fields:
  fixes rih tractor :: "sample list" and pooh :: "sample list option" and td stop :: "real option"
  defines "fd \<equiv> forceDepth_of td rih"
  defines "sd \<equiv> stopDepth_of stop (forceDepth_of td rih)"
  defines "mds \<equiv> allMDs_of rih tractor pooh"
  defines "m \<equiv> merged (stitch_main rih tractor pooh td stop)"
  shows "\<exists>out. handleStitch \<lparr>f_rih = Some rih, f_tractor = Some tractor, f_pooh = pooh\<rparr> td stop = Some out \<and>
     length out = length mds \<and>
     (\<forall>j < length mds.
        pt_md (out ! j) = mds ! j \<and>
        rih_standard_1 (out ! j) = rih_standard_1 (m ! j) \<and>
        pt_pooh (out ! j) = pt_pooh (m ! j) \<and>
        rih_tractor (out ! j) =
          (if last_index (rec1 rih fd) mds = Some j then near_rih rih (mds ! j)
           else rih_tractor (m ! j)) \<and>
        rih_standard_2 (out ! j) =
          (if last_index (rec2 tractor fd sd) mds = Some j \<and> j + 1 < length mds \<and>
              rih_standard_2 (m ! (j + 1)) \<noteq> None
           then near_rih tractor (mds ! j)
           else rih_standard_2 (m ! j)))"
proof -
  define s where "s = stitch_main rih tractor pooh td stop"
  define m1 where "m1 = connect1 sd s (merged s)"
  define out where "out = connect2 s m1"
  have ms: "m = merged s" by (simp add: m_def s_def)
  have lens: "length m = length mds" by (simp add: m_def mds_def stitch_main_length)
  have c1: "m1 = (case last_index (rec1 rih fd) mds of
        None \<Rightarrow> m
      | Some i \<Rightarrow> m[i := (m ! i)\<lparr>rih_tractor := near_rih rih (mds ! i)\<rparr>])"
    unfolding m1_def s_def sd_def fd_def mds_def m_def by (rule connect1_eq)
  have len1: "length m1 = length m" by (simp add: c1 split: option.splits)
  have same2: "\<forall>j < length m1. rih_standard_2 (m1 ! j) = rih_standard_2 (merged s ! j)"
    using len1 lens
    by (auto simp add: c1 ms[symmetric] nth_list_update dest: last_index_less split: option.splits)
  have c2: "out = (case last_index (rec2 tractor fd sd) mds of
        None \<Rightarrow> m1
      | Some i \<Rightarrow>
          if i + 1 < length mds \<and> rih_standard_2 (m ! (i + 1)) \<noteq> None
          then m1[i := (m1 ! i)\<lparr>rih_standard_2 := near_rih tractor (mds ! i)\<rparr>]
          else m1)"
    unfolding out_def ms s_def sd_def fd_def mds_def
    by (rule connect2_eq) (use len1 same2 in \<open>simp_all add: ms s_def\<close>)
  have lenout: "length out = length mds" using len1 lens by (simp add: c2 split: option.splits)
  have hs: "handleStitch \<lparr>f_rih = Some rih, f_tractor = Some tractor, f_pooh = pooh\<rparr> td stop = Some out"
    by (simp add: handleStitch_def Let_def out_def m1_def s_def sd_def)
  have md: "pt_md (m ! j) = mds ! j" if "j < length mds" for j
  proof -
    from that have "m ! j = main_point rih tractor pooh fd sd
       (poohSource_of \<lparr>f_rih = Some rih, f_tractor = Some tractor, f_pooh = pooh\<rparr>)
       (mds ! j) (track1 rih fd (take j mds) None)"
      unfolding m_def mds_def fd_def sd_def by (rule stitch_main_nth)
    then show ?thesis by (simp add: main_point_def)
  qed
  have fields: "pt_md (out ! j) = mds ! j \<and>
        rih_standard_1 (out ! j) = rih_standard_1 (m ! j) \<and>
        pt_pooh (out ! j) = pt_pooh (m ! j) \<and>
        rih_tractor (out ! j) =
          (if last_index (rec1 rih fd) mds = Some j then near_rih rih (mds ! j)
           else rih_tractor (m ! j)) \<and>
        rih_standard_2 (out ! j) =
          (if last_index (rec2 tractor fd sd) mds = Some j \<and> j + 1 < length mds \<and>
              rih_standard_2 (m ! (j + 1)) \<noteq> None
           then near_rih tractor (mds ! j)
           else rih_standard_2 (m ! j))"
    if j: "j < length mds" for j
  proof -
    from j lens have jm: "j < length m" by simp
    have a: "pt_md (m1 ! j) = mds ! j \<and> rih_standard_1 (m1 ! j) = rih_standard_1 (m ! j) \<and>
        pt_pooh (m1 ! j) = pt_pooh (m ! j) \<and> rih_standard_2 (m1 ! j) = rih_standard_2 (m ! j) \<and>
        rih_tractor (m1 ! j) =
          (if last_index (rec1 rih fd) mds = Some j then near_rih rih (mds ! j)
           else rih_tractor (m ! j))"
      using jm md[OF j] lens
      by (auto simp add: c1 nth_list_update dest: last_index_less split: option.splits)
    from jm len1 have j1: "j < length m1" by simp
    show ?thesis
      using a j1 len1 lens
      by (auto simp add: c2 nth_list_update dest: last_index_less split: option.splits)
  qed
  from hs lenout fields show ?thesis by blast
qed

lemma md_ge_mono: "md_ge a d \<Longrightarrow> a \<le> b \<Longrightarrow> md_ge b d"
  by (cases d) auto

lemma stitch_main_std2:
  fixes rih tractor :: "sample list" and pooh :: "sample list option" and td stop :: "real option"
  defines "fd \<equiv> forceDepth_of td rih"
  defines "sd \<equiv> stopDepth_of stop (forceDepth_of td rih)"
  defines "mds \<equiv> allMDs_of rih tractor pooh"
  defines "m \<equiv> merged (stitch_main rih tractor pooh td stop)"
  assumes i: "i < length mds"
  shows "(phase1 fd (mds ! i) \<or> phase2 fd sd (mds ! i) \<longrightarrow> rih_standard_2 (m ! i) = None) \<and>
         (phase3 sd (mds ! i) \<longrightarrow>
            rih_standard_2 (m ! i) =
              (case near rih (mds ! i) of
                 Some p \<Rightarrow> s_rih p
               | None \<Rightarrow>
                   (case last_index (rec1 rih fd) mds of
                      Some j \<Rightarrow> near_rih rih (mds ! j) | None \<Rightarrow> None)))"
proof -
  have pt: "m ! i = main_point rih tractor pooh fd sd
       (poohSource_of \<lparr>f_rih = Some rih, f_tractor = Some tractor, f_pooh = pooh\<rparr>)
       (mds ! i) (track1 rih fd (take i mds) None)"
    using i unfolding m_def mds_def fd_def sd_def by (rule stitch_main_nth)
  note F = main_point_fields[of rih tractor pooh fd stop
      "poohSource_of \<lparr>f_rih = Some rih, f_tractor = Some tractor, f_pooh = pooh\<rparr>" "mds ! i"
      "track1 rih fd (take i mds) None", folded sd_def[unfolded fd_def[symmetric]]]
  have a: "phase1 fd (mds ! i) \<or> phase2 fd sd (mds ! i) \<longrightarrow> rih_standard_2 (m ! i) = None"
    unfolding pt using F by blast
  have b: "rih_standard_2 (m ! i) =
              (case near rih (mds ! i) of
                 Some p \<Rightarrow> s_rih p
               | None \<Rightarrow>
                   (case last_index (rec1 rih fd) mds of
                      Some j \<Rightarrow> near_rih rih (mds ! j) | None \<Rightarrow> None))"
    if p3: "phase3 sd (mds ! i)"
  proof -
    have srt: "sorted mds" unfolding mds_def using allMDs_of_props by blast
    have "\<not> rec1 rih fd (mds ! k)" if k: "i \<le> k \<and> k < length mds" for k
    proof -
      from srt k have "mds ! i \<le> mds ! k" by (simp add: sorted_nth_mono)
      with p3 have "md_ge (mds ! k) sd" unfolding phase3_def by (rule md_ge_mono)
      then have "\<not> md_lt (mds ! k) sd" by (simp add: md_ge_iff)
      then have "\<not> md_lt (mds ! k) fd"
        using md_lt_stopDepth[of "mds ! k" fd stop] by (auto simp add: sd_def fd_def)
      then show ?thesis by (simp add: rec1_def phase1_def)
    qed
    then have li: "last_index (rec1 rih fd) (take i mds) = last_index (rec1 rih fd) mds"
      by (intro last_index_take) blast
    have tr: "track1 rih fd (take i mds) None =
        (case last_index (rec1 rih fd) mds of Some j \<Rightarrow> near_rih rih (mds ! j) | None \<Rightarrow> None)"
    proof (cases "last_index (rec1 rih fd) mds")
      case None
      with li show ?thesis by (simp add: track1_last_index)
    next
      case (Some j)
      with li have lj: "last_index (rec1 rih fd) (take i mds) = Some j" by simp
      from last_index_less[OF lj] have "j < length (take i mds)" by blast
      then have "take i mds ! j = mds ! j" by simp
      with lj Some show ?thesis by (simp add: track1_last_index)
    qed
    from F p3 have "rih_standard_2 (m ! i) =
        (case near rih (mds ! i) of Some p \<Rightarrow> s_rih p | None \<Rightarrow> track1 rih fd (take i mds) None)"
      unfolding pt by blast
    with tr show ?thesis by (cases "near rih (mds ! i)") simp_all
  qed
  from a b show ?thesis by blast
qed

subsection \<open>The display without stitching\<close>

lemma autoDisplay_map:
  "(f_rih files = Some rih \<longrightarrow>
      autoDisplay files False chartData =
        map (\<lambda>p. \<lparr>pt_md = s_md p, rih_standard_1 = s_rih p, rih_standard_2 = None,
                    rih_tractor = None,
                    pt_pooh = (case f_pooh files of
                                 Some ps \<Rightarrow> near_pooh ps (s_md p)
                               | None \<Rightarrow> s_pooh p)\<rparr>) rih \<and>
      length (autoDisplay files False chartData) = length rih \<and>
      (\<forall>i < length rih.
         pt_md (autoDisplay files False chartData ! i) = s_md (rih ! i) \<and>
         rih_standard_1 (autoDisplay files False chartData ! i) = s_rih (rih ! i) \<and>
         rih_tractor (autoDisplay files False chartData ! i) = None \<and>
         rih_standard_2 (autoDisplay files False chartData ! i) = None \<and>
         pt_pooh (autoDisplay files False chartData ! i) =
           (case f_pooh files of
              Some ps \<Rightarrow> near_pooh ps (s_md (rih ! i))
            | None \<Rightarrow> s_pooh (rih ! i))))"
proof -
  have b: "autoDisplay files False chartData =
        map (\<lambda>p. \<lparr>pt_md = s_md p, rih_standard_1 = s_rih p, rih_standard_2 = None,
                    rih_tractor = None,
                    pt_pooh = (case f_pooh files of
                                 Some ps \<Rightarrow> near_pooh ps (s_md p)
                               | None \<Rightarrow> s_pooh p)\<rparr>) rih"
    if "f_rih files = Some rih"
    using that
    by (cases "f_pooh files")
       (auto simp add: autoDisplay_def Let_def near_pooh_def comp_def split: option.splits)
  from b show ?thesis by (auto simp del: map_eq_conv)
qed


lemma handleStitch_no_tractor:
  "f_tractor files = None \<Longrightarrow> handleStitch files tractorDepth stopTractorDepth = None"
  by (simp add: handleStitch_def split: option.splits)

lemma handleStitch_Some_files:
  "handleStitch files tractorDepth stopTractorDepth = Some mrg \<Longrightarrow>
   f_tractor files \<noteq> None \<and> f_rih files \<noteq> None"
  by (auto simp add: handleStitch_def split: option.splits)

lemma autoDisplay_deps:
  "f_rih files = f_rih files' \<Longrightarrow> f_pooh files = f_pooh files' \<Longrightarrow>
   autoDisplay files False cd = autoDisplay files' False cd'"
  by (cases "f_rih files'") (simp_all add: autoDisplay_def)

lemma builder_inv_mount: "builder_inv (mount files td stop)"
  by (simp add: builder_inv_def mount_def)

lemma builder_inv_unstitch:
  assumes "builder_inv b" and "b_isStitched b' = False" and "b_chartData b' = b_chartData b"
  shows "builder_inv (run_effect b b')"
proof (cases "f_rih (b_files b') \<noteq> f_rih (b_files b) \<or> f_pooh (b_files b') \<noteq> f_pooh (b_files b) \<or>
         b_isStitched b' \<noteq> b_isStitched b")
  case True
  then have "run_effect b b' = b'\<lparr>b_chartData := autoDisplay (b_files b') False (b_chartData b')\<rparr>"
    using assms(2) by (simp add: run_effect_def)
  moreover have "autoDisplay (b_files b') False (b_chartData b') = autoDisplay (b_files b') False []"
    by (rule autoDisplay_deps) simp_all
  ultimately show ?thesis using assms(2) by (simp add: builder_inv_def)
next
  case False
  then have same: "f_rih (b_files b') = f_rih (b_files b)" "f_pooh (b_files b') = f_pooh (b_files b)"
    "\<not> b_isStitched b" using assms(2) by auto
  from False have r: "run_effect b b' = b'" by (simp add: run_effect_def)
  from assms(1) same(3) have "b_chartData b = autoDisplay (b_files b) False []"
    by (simp add: builder_inv_def)
  also have "\<dots> = autoDisplay (b_files b') False []"
    using same by (intro autoDisplay_deps) simp_all
  finally show ?thesis using r assms(2,3) by (simp add: builder_inv_def)
qed

lemma builder_inv_step: "builder_inv b \<Longrightarrow> builder_inv (builder_step e b)"
proof (cases e)
  case (SetFiles newFiles)
  assume "builder_inv b"
  then show ?thesis unfolding builder_step_def SetFiles by (rule builder_inv_unstitch) simp_all
next
  case (SetTractorDepth d)
  assume "builder_inv b"
  then show ?thesis unfolding builder_step_def SetTractorDepth by (rule builder_inv_unstitch) simp_all
next
  case (SetStopTractorDepth d)
  assume "builder_inv b"
  then show ?thesis unfolding builder_step_def SetStopTractorDepth by (rule builder_inv_unstitch) simp_all
next
  case Stitch
  assume inv: "builder_inv b"
  show ?thesis
  proof (cases "handleStitch (b_files b) (b_tractorDepth b) (b_stopTractorDepth b)")
    case None
    then have "builder_step e b = b" by (simp add: builder_step_def Stitch run_effect_def)
    with inv show ?thesis by simp
  next
    case (Some mrg)
    from handleStitch_Some_files[OF Some] obtain rih where
      f: "f_tractor (b_files b) \<noteq> None" "f_rih (b_files b) = Some rih" by auto
    then have "builder_step e b = b\<lparr>b_chartData := mrg, b_isStitched := True\<rparr>"
      using Some by (simp add: builder_step_def Stitch run_effect_def autoDisplay_def)
    with f show ?thesis by (simp add: builder_inv_def)
  qed
qed

lemma reachable_inv: "reachable b \<Longrightarrow> builder_inv b"
  by (induction rule: reachable.induct) (simp_all add: builder_inv_mount builder_inv_step)

subsection \<open>The example files, evaluated\<close>

lemma allMDs_off_on: "allMDs_of rih_off tractor_on None = [0, 400, 500, 900, 1000, 1500]"
  by (simp add: allMDs_of_def rih_off_def tractor_on_def)

lemma depths_off_on:
  "forceDepth_of (Some 500) rih_off = Fin 500 \<and> stopDepth_of (Some 1200) (Fin 500) = Fin 1200"
  by (simp add: forceDepth_of_def stopDepth_of_def)

lemma near_off:
  "near_rih rih_off 400 = Some 20 \<and> near_rih tractor_on 900 = Some 6"
  by (simp add: near_rih_def near_def rih_off_def tractor_on_def)

lemma depths_off_on_950:
  "forceDepth_of (Some 500) rih_off = Fin 500 \<and> stopDepth_of (Some 950) (Fin 500) = Fin 950"
  by (simp add: forceDepth_of_def stopDepth_of_def)

lemma near_off_on:
  "map (near_rih rih_off) [0, 400, 500, 900, 1000, 1500] = [Some 10, Some 20, None, None, Some 30, None] \<and>
   map (near_rih tractor_on) [0, 400, 500, 900, 1000, 1500] = [None, None, Some 5, Some 6, None, Some 7]"
  by (simp add: near_rih_def near_def rih_off_def tractor_on_def)

lemma near_off_on_None:
  "map (\<lambda>m. near rih_off m = None) [0, 400, 500, 900, 1000, 1500] = [False, False, True, True, False, True] \<and>
   map (\<lambda>m. near tractor_on m = None) [0, 400, 500, 900, 1000, 1500] = [True, True, False, False, True, False]"
  by (simp add: near_def rih_off_def tractor_on_def)

lemma last_rec1_off_on:
  "last_index (rec1 rih_off (Fin 500)) [0, 400, 500, 900, 1000, 1500] = Some 1"
  using near_off_on_None by (simp add: rec1_def phase1_def)

lemma last_rec2_off_on:
  "last_index (rec2 tractor_on (Fin 500) (Fin 950)) [0, 400, 500, 900, 1000, 1500] = Some 3"
  using near_off_on_None by (simp add: rec2_def phase2_def)

lemma allMDs_late_early: "allMDs_of rih_late tractor_early None = [10, 50, 100]"
  by (simp add: allMDs_of_def rih_late_def tractor_early_def)

lemma near_late_early:
  "map (near rih_late) [10, 50, 100] = [None, None, Some \<lparr>s_md = 100, s_rih = Some 7, s_pooh = None\<rparr>] \<and>
   map (near tractor_early) [10, 50, 100] =
     [Some \<lparr>s_md = 10, s_rih = Some 3, s_pooh = Some 1\<rparr>, Some \<lparr>s_md = 50, s_rih = Some 4, s_pooh = Some 2\<rparr>, None]"
  by (simp add: near_def rih_late_def tractor_early_def)

lemma depths_late_early:
  "forceDepth_of (Some 10) rih_late = Fin 10 \<and> stopDepth_of (Some 40) (Fin 10) = Fin 40"
  by (simp add: forceDepth_of_def stopDepth_of_def)

lemma main_late_early:
  "stitch_main rih_late tractor_early None (Some 10) (Some 40) =
     \<lparr>merged =
        [\<lparr>pt_md = 10, rih_standard_1 = None, rih_standard_2 = None, rih_tractor = Some 3, pt_pooh = Some 1\<rparr>,
         \<lparr>pt_md = 50, rih_standard_1 = None, rih_standard_2 = None, rih_tractor = None, pt_pooh = Some 2\<rparr>,
         \<lparr>pt_md = 100, rih_standard_1 = None, rih_standard_2 = Some 7, rih_tractor = None, pt_pooh = None\<rparr>],
      lastRihStandard1Value = None, lastRihStandard1Index = None,
      lastRihTractorValue = Some 3, lastRihTractorIndex = Some 0\<rparr>"
  using near_late_early
  by (simp add: stitch_main_def Let_def allMDs_late_early depths_late_early init_state_def
        stitch_step_eq main_point_def rec1_def rec2_def phase1_def phase2_def near_rih_def
        near_pooh_def pooh_value_def poohSource_of_def)


lemma allMDs_gap_deep: "allMDs_of rih_gap tractor_deep None = [0, 100, 200, 300]"
  by (simp add: allMDs_of_def rih_gap_def tractor_deep_def)

lemma near_gap_deep:
  "map (near rih_gap) [0, 100, 200, 300] =
     [Some \<lparr>s_md = 0, s_rih = Some 10, s_pooh = None\<rparr>, Some \<lparr>s_md = 100, s_rih = None, s_pooh = None\<rparr>,
      None, None] \<and>
   map (near tractor_deep) [0, 100, 200, 300] =
     [None, None, Some \<lparr>s_md = 200, s_rih = Some 5, s_pooh = None\<rparr>,
      Some \<lparr>s_md = 300, s_rih = Some 6, s_pooh = None\<rparr>]"
  by (simp add: near_def rih_gap_def tractor_deep_def)

lemma depths_gap_deep:
  "forceDepth_of (Some 150) rih_gap = Fin 150 \<and> stopDepth_of (Some 250) (Fin 150) = Fin 250"
  by (simp add: forceDepth_of_def stopDepth_of_def)

lemma main_gap_deep:
  "stitch_main rih_gap tractor_deep None (Some 150) (Some 250) =
     \<lparr>merged =
        [\<lparr>pt_md = 0, rih_standard_1 = Some 10, rih_standard_2 = None, rih_tractor = None, pt_pooh = None\<rparr>,
         \<lparr>pt_md = 100, rih_standard_1 = None, rih_standard_2 = None, rih_tractor = None, pt_pooh = None\<rparr>,
         \<lparr>pt_md = 200, rih_standard_1 = None, rih_standard_2 = None, rih_tractor = Some 5, pt_pooh = None\<rparr>,
         \<lparr>pt_md = 300, rih_standard_1 = None, rih_standard_2 = None, rih_tractor = None, pt_pooh = None\<rparr>],
      lastRihStandard1Value = None, lastRihStandard1Index = Some 1,
      lastRihTractorValue = Some 5, lastRihTractorIndex = Some 2\<rparr>"
  using near_gap_deep
  by (simp add: stitch_main_def Let_def allMDs_gap_deep depths_gap_deep init_state_def
        stitch_step_eq main_point_def rec1_def rec2_def phase1_def phase2_def near_rih_def
        near_pooh_def pooh_value_def poohSource_of_def)

subsection \<open>The claims about the stitcher\<close>

text \<open>
  Claim C1.  For a non-empty \<open>rih\<close> series and a tractor series: the force depth is the
  given one when it is a nonzero number and the maximum MD of \<open>rih\<close> otherwise; the stop
  depth is the given one when it is strictly greater than the force depth and infinity
  otherwise; the main pass yields one point per MD of the sorted, deduplicated union of the
  series' MDs, and by depth exactly one phase applies: strictly below the force depth only
  \<open>rih_standard_1\<close> is written, with the \<open>rih\<close> of the first tractor-off sample within 0.5
  (else null); from the force depth up to the stop depth only \<open>rih_tractor\<close>, with the
  \<open>rih\<close> of the first tractor-on sample within 0.5 (else null); at or above the stop depth
  only \<open>rih_standard_2\<close>.
\<close>

theorem stitch_main_phases:
  fixes rih tractor :: "sample list" and pooh :: "sample list option"
    and tractorDepth stopTractorDepth :: "real option"
  assumes "rih \<noteq> []"
  defines "fd \<equiv> forceDepth_of tractorDepth rih"
  defines "sd \<equiv> stopDepth_of stopTractorDepth (forceDepth_of tractorDepth rih)"
  defines "mds \<equiv> allMDs_of rih tractor pooh"
  defines "m \<equiv> merged (stitch_main rih tractor pooh tractorDepth stopTractorDepth)"
  shows "fd = (if tractorDepth = None \<or> tractorDepth = Some 0 then Fin (Max (s_md ` set rih))
               else Fin (the tractorDepth)) \<and>
         sd = (if (\<exists>s. stopTractorDepth = Some s \<and> md_gt s fd) then Fin (the stopTractorDepth)
               else PosInf) \<and>
         sorted mds \<and> distinct mds \<and>
         set mds = s_md ` set rih \<union> s_md ` set tractor \<union>
                   (case pooh of Some ps \<Rightarrow> s_md ` set ps | None \<Rightarrow> {}) \<and>
         length m = length mds \<and>
         (\<forall>i < length mds.
            pt_md (m ! i) = mds ! i \<and>
            (phase1 fd (mds ! i) \<or> phase2 fd sd (mds ! i) \<or> phase3 sd (mds ! i)) \<and>
            (phase1 fd (mds ! i) \<longrightarrow>
               \<not> phase2 fd sd (mds ! i) \<and> \<not> phase3 sd (mds ! i) \<and>
               rih_standard_1 (m ! i) = near_rih rih (mds ! i) \<and>
               rih_tractor (m ! i) = None \<and> rih_standard_2 (m ! i) = None) \<and>
            (phase2 fd sd (mds ! i) \<longrightarrow>
               \<not> phase3 sd (mds ! i) \<and>
               rih_tractor (m ! i) = near_rih tractor (mds ! i) \<and>
               rih_standard_1 (m ! i) = None \<and> rih_standard_2 (m ! i) = None) \<and>
            (phase3 sd (mds ! i) \<longrightarrow>
               rih_standard_1 (m ! i) = None \<and> rih_tractor (m ! i) = None))"
proof -
  have a: "fd = (if tractorDepth = None \<or> tractorDepth = Some 0 then Fin (Max (s_md ` set rih))
               else Fin (the tractorDepth))"
    unfolding fd_def using assms(1) by (rule forceDepth_of_eq)
  have b: "sd = (if (\<exists>s. stopTractorDepth = Some s \<and> md_gt s fd) then Fin (the stopTractorDepth)
               else PosInf)"
    unfolding sd_def fd_def by (rule stopDepth_of_eq)
  have c: "sorted mds \<and> distinct mds \<and>
         set mds = s_md ` set rih \<union> s_md ` set tractor \<union>
                   (case pooh of Some ps \<Rightarrow> s_md ` set ps | None \<Rightarrow> {})"
    unfolding mds_def by (rule allMDs_of_props)
  have d: "length m = length mds"
    unfolding m_def mds_def by (rule stitch_main_length)
  have e: "pt_md (m ! i) = mds ! i \<and>
            (phase1 fd (mds ! i) \<or> phase2 fd sd (mds ! i) \<or> phase3 sd (mds ! i)) \<and>
            (phase1 fd (mds ! i) \<longrightarrow>
               \<not> phase2 fd sd (mds ! i) \<and> \<not> phase3 sd (mds ! i) \<and>
               rih_standard_1 (m ! i) = near_rih rih (mds ! i) \<and>
               rih_tractor (m ! i) = None \<and> rih_standard_2 (m ! i) = None) \<and>
            (phase2 fd sd (mds ! i) \<longrightarrow>
               \<not> phase3 sd (mds ! i) \<and>
               rih_tractor (m ! i) = near_rih tractor (mds ! i) \<and>
               rih_standard_1 (m ! i) = None \<and> rih_standard_2 (m ! i) = None) \<and>
            (phase3 sd (mds ! i) \<longrightarrow>
               rih_standard_1 (m ! i) = None \<and> rih_tractor (m ! i) = None)"
    if "i < length mds" for i
  proof -
    from that have "m ! i = main_point rih tractor pooh fd sd
       (poohSource_of \<lparr>f_rih = Some rih, f_tractor = Some tractor, f_pooh = pooh\<rparr>)
       (mds ! i) (track1 rih fd (take i mds) None)"
      unfolding m_def mds_def fd_def sd_def by (rule stitch_main_nth)
    then show ?thesis
      unfolding sd_def fd_def[symmetric]
      using main_point_fields[of rih tractor pooh fd stopTractorDepth _ "mds ! i"]
        phases_cover[of fd "mds ! i" stopTractorDepth] phases_apart[of fd "mds ! i" stopTractorDepth]
      by simp
  qed
  from a b c d e show ?thesis by blast
qed

text \<open>
  C1 on the example files with force depth 500 and stop depth 1200: the point at 400 is
  Phase 1, the point at 900 Phase 2, the point at 1500 Phase 3.
\<close>

theorem stitch_main_phases_witness:
  "rih_off \<noteq> [] \<and>
   allMDs_of rih_off tractor_on None = [0, 400, 500, 900, 1000, 1500] \<and>
   forceDepth_of (Some 500) rih_off = Fin 500 \<and>
   stopDepth_of (Some 1200) (forceDepth_of (Some 500) rih_off) = Fin 1200 \<and>
   rih_standard_1 (merged (stitch_main rih_off tractor_on None (Some 500) (Some 1200)) ! 1) = Some 20 \<and>
   rih_tractor (merged (stitch_main rih_off tractor_on None (Some 500) (Some 1200)) ! 1) = None \<and>
   rih_standard_2 (merged (stitch_main rih_off tractor_on None (Some 500) (Some 1200)) ! 1) = None \<and>
   rih_tractor (merged (stitch_main rih_off tractor_on None (Some 500) (Some 1200)) ! 3) = Some 6 \<and>
   rih_standard_1 (merged (stitch_main rih_off tractor_on None (Some 500) (Some 1200)) ! 3) = None \<and>
   rih_standard_2 (merged (stitch_main rih_off tractor_on None (Some 500) (Some 1200)) ! 3) = None \<and>
   rih_standard_1 (merged (stitch_main rih_off tractor_on None (Some 500) (Some 1200)) ! 5) = None \<and>
   rih_tractor (merged (stitch_main rih_off tractor_on None (Some 500) (Some 1200)) ! 5) = None"
proof -
  have ne: "rih_off \<noteq> []" by (simp add: rih_off_def)
  note T = stitch_main_phases[OF ne, of "Some 500" "Some 1200" tractor_on None,
      unfolded allMDs_off_on depths_off_on[THEN conjunct1] depths_off_on[THEN conjunct2]]
  from T have all: "\<forall>i<length [0, 400, 500, 900, 1000, 1500::real].
      (phase1 (Fin 500) ([0, 400, 500, 900, 1000, 1500] ! i) \<longrightarrow>
         rih_standard_1 (merged (stitch_main rih_off tractor_on None (Some 500) (Some 1200)) ! i) =
           near_rih rih_off ([0, 400, 500, 900, 1000, 1500] ! i) \<and>
         rih_tractor (merged (stitch_main rih_off tractor_on None (Some 500) (Some 1200)) ! i) = None \<and>
         rih_standard_2 (merged (stitch_main rih_off tractor_on None (Some 500) (Some 1200)) ! i) = None) \<and>
      (phase2 (Fin 500) (Fin 1200) ([0, 400, 500, 900, 1000, 1500] ! i) \<longrightarrow>
         rih_tractor (merged (stitch_main rih_off tractor_on None (Some 500) (Some 1200)) ! i) =
           near_rih tractor_on ([0, 400, 500, 900, 1000, 1500] ! i) \<and>
         rih_standard_1 (merged (stitch_main rih_off tractor_on None (Some 500) (Some 1200)) ! i) = None \<and>
         rih_standard_2 (merged (stitch_main rih_off tractor_on None (Some 500) (Some 1200)) ! i) = None) \<and>
      (phase3 (Fin 1200) ([0, 400, 500, 900, 1000, 1500] ! i) \<longrightarrow>
         rih_standard_1 (merged (stitch_main rih_off tractor_on None (Some 500) (Some 1200)) ! i) = None \<and>
         rih_tractor (merged (stitch_main rih_off tractor_on None (Some 500) (Some 1200)) ! i) = None)"
    by blast
  from all[THEN spec, of 1] near_off
  have p1: "rih_standard_1 (merged (stitch_main rih_off tractor_on None (Some 500) (Some 1200)) ! 1) = Some 20 \<and>
   rih_tractor (merged (stitch_main rih_off tractor_on None (Some 500) (Some 1200)) ! 1) = None \<and>
   rih_standard_2 (merged (stitch_main rih_off tractor_on None (Some 500) (Some 1200)) ! 1) = None"
    by (simp add: phase1_def)
  from all[THEN spec, of 3] near_off
  have p2: "rih_tractor (merged (stitch_main rih_off tractor_on None (Some 500) (Some 1200)) ! 3) = Some 6 \<and>
   rih_standard_1 (merged (stitch_main rih_off tractor_on None (Some 500) (Some 1200)) ! 3) = None \<and>
   rih_standard_2 (merged (stitch_main rih_off tractor_on None (Some 500) (Some 1200)) ! 3) = None"
    by (simp add: phase2_def)
  from all[THEN spec, of 5]
  have p3: "rih_standard_1 (merged (stitch_main rih_off tractor_on None (Some 500) (Some 1200)) ! 5) = None \<and>
   rih_tractor (merged (stitch_main rih_off tractor_on None (Some 500) (Some 1200)) ! 5) = None"
    by (simp add: phase3_def)
  from ne allMDs_off_on depths_off_on p1 p2 p3 show ?thesis by simp
qed

text \<open>
  What the Phase-3 fallback writes.  In the stitched output, a point at or above the stop
  depth with no tractor-off sample within 0.5 carries in \<open>rih_standard_2\<close> the value of
  \<open>lastRihStandard1Value\<close>, and that variable holds the \<open>rih\<close> field of the tractor-off
  sample near the last depth below the force depth that has such a sample: every Phase-1
  match assigns it, a match whose \<open>rih\<close> is null included.
\<close>

lemma handleStitch_phase3_fallback:
  fixes rih tractor :: "sample list" and pooh :: "sample list option"
    and tractorDepth stopTractorDepth :: "real option"
  defines "fd \<equiv> forceDepth_of tractorDepth rih"
  defines "sd \<equiv> stopDepth_of stopTractorDepth (forceDepth_of tractorDepth rih)"
  defines "mds \<equiv> allMDs_of rih tractor pooh"
  defines "out \<equiv> the (handleStitch \<lparr>f_rih = Some rih, f_tractor = Some tractor, f_pooh = pooh\<rparr>
                         tractorDepth stopTractorDepth)"
  shows "handleStitch \<lparr>f_rih = Some rih, f_tractor = Some tractor, f_pooh = pooh\<rparr>
           tractorDepth stopTractorDepth \<noteq> None \<and>
         length out = length mds \<and>
         (\<forall>i < length mds.
            phase3 sd (mds ! i) \<and> near rih (mds ! i) = None \<longrightarrow>
              pt_md (out ! i) = mds ! i \<and>
              rih_standard_2 (out ! i) =
                (case last_index (rec1 rih fd) mds of
                   Some j \<Rightarrow> near_rih rih (mds ! j)
                 | None \<Rightarrow> None) \<and>
              rih_standard_2 (out ! i) =
                lastRihStandard1Value (stitch_main rih tractor pooh tractorDepth stopTractorDepth))"
proof -
  define m where "m = merged (stitch_main rih tractor pooh tractorDepth stopTractorDepth)"
  from handleStitch_fields[of rih tractor pooh tractorDepth stopTractorDepth]
  obtain out' where o: "handleStitch \<lparr>f_rih = Some rih, f_tractor = Some tractor, f_pooh = pooh\<rparr>
        tractorDepth stopTractorDepth = Some out'"
    and len: "length out' = length mds"
    and fl: "\<forall>j < length mds.
        pt_md (out' ! j) = mds ! j \<and>
        rih_standard_2 (out' ! j) =
          (if last_index (rec2 tractor fd sd) mds = Some j \<and> j + 1 < length mds \<and>
              rih_standard_2 (m ! (j + 1)) \<noteq> None
           then near_rih tractor (mds ! j)
           else rih_standard_2 (m ! j))"
    unfolding fd_def sd_def mds_def m_def by blast
  from o have oo: "out = out'" by (simp add: out_def)
  have main: "pt_md (out ! i) = mds ! i \<and>
              rih_standard_2 (out ! i) =
                (case last_index (rec1 rih fd) mds of
                   Some j \<Rightarrow> near_rih rih (mds ! j)
                 | None \<Rightarrow> None) \<and>
              rih_standard_2 (out ! i) =
                lastRihStandard1Value (stitch_main rih tractor pooh tractorDepth stopTractorDepth)"
    if i: "i < length mds" and h: "phase3 sd (mds ! i) \<and> near rih (mds ! i) = None" for i
  proof -
    have "last_index (rec2 tractor fd sd) mds \<noteq> Some i"
    proof
      assume "last_index (rec2 tractor fd sd) mds = Some i"
      then have "rec2 tractor fd sd (mds ! i)" by (simp add: last_index_less)
      then have "phase2 fd sd (mds ! i)" by (simp add: rec2_def)
      with h show False
        using phases_apart[of fd "mds ! i" stopTractorDepth] by (simp add: sd_def fd_def)
    qed
    with fl i have e: "pt_md (out' ! i) = mds ! i" "rih_standard_2 (out' ! i) = rih_standard_2 (m ! i)"
      by simp_all
    note S = stitch_main_std2[of i rih tractor pooh tractorDepth stopTractorDepth,
        folded sd_def fd_def mds_def m_def]
    from S[OF i] h
    have "rih_standard_2 (m ! i) =
        (case last_index (rec1 rih fd) mds of Some j \<Rightarrow> near_rih rih (mds ! j) | None \<Rightarrow> None)"
      by simp
    moreover have "lastRihStandard1Value (stitch_main rih tractor pooh tractorDepth stopTractorDepth) =
        (case last_index (rec1 rih fd) mds of Some j \<Rightarrow> near_rih rih (mds ! j) | None \<Rightarrow> None)"
      by (rule stitch_main_state[of rih tractor pooh tractorDepth stopTractorDepth,
            folded fd_def mds_def, THEN conjunct2, THEN conjunct1])
    ultimately show ?thesis using e oo by simp
  qed
  from o have "handleStitch \<lparr>f_rih = Some rih, f_tractor = Some tractor, f_pooh = pooh\<rparr>
           tractorDepth stopTractorDepth \<noteq> None" by simp
  moreover from len oo have "length out = length mds" by simp
  ultimately show ?thesis using main by blast
qed

text \<open>
  Claim C2 fails on the code.  The claim, like the comment on the fallback (\<open>extend the last known
  value\<close>), promises the last recorded Phase-1 value at a Phase-3 depth with no
  tractor-off sample near it.  Tractor-off file: md 0 with rih 10 and md 100 with no rih
  (null); tractor-on file: md 200 and 300; force depth 150, stop depth 250.  A Phase-1
  value, 10, was recorded at md 0, but the sample at md 100 overwrote
  \<open>lastRihStandard1Value\<close> with null, and the Phase-3 point at md 300 keeps
  \<open>rih_standard_2\<close> null instead of 10.
\<close>

theorem handleStitch_phase3_null_overwrite:
  "handleStitch \<lparr>f_rih = Some rih_gap, f_tractor = Some tractor_deep, f_pooh = None\<rparr>
     (Some 150) (Some 250) =
   Some [\<lparr>pt_md = 0, rih_standard_1 = Some 10, rih_standard_2 = None, rih_tractor = None, pt_pooh = None\<rparr>,
         \<lparr>pt_md = 100, rih_standard_1 = None, rih_standard_2 = None, rih_tractor = None, pt_pooh = None\<rparr>,
         \<lparr>pt_md = 200, rih_standard_1 = None, rih_standard_2 = None, rih_tractor = Some 5, pt_pooh = None\<rparr>,
         \<lparr>pt_md = 300, rih_standard_1 = None, rih_standard_2 = None, rih_tractor = None, pt_pooh = None\<rparr>] \<and>
   forceDepth_of (Some 150) rih_gap = Fin 150 \<and>
   stopDepth_of (Some 250) (forceDepth_of (Some 150) rih_gap) = Fin 250 \<and>
   phase1 (Fin 150) 0 \<and> phase1 (Fin 150) 100 \<and> phase3 (Fin 250) 300 \<and>
   near rih_gap 300 = None \<and>
   near_rih rih_gap 0 = Some 10 \<and>
   rih_standard_2 (the (handleStitch \<lparr>f_rih = Some rih_gap, f_tractor = Some tractor_deep, f_pooh = None\<rparr>
     (Some 150) (Some 250)) ! 3) = None"
proof -
  have "handleStitch \<lparr>f_rih = Some rih_gap, f_tractor = Some tractor_deep, f_pooh = None\<rparr>
     (Some 150) (Some 250) =
   Some [\<lparr>pt_md = 0, rih_standard_1 = Some 10, rih_standard_2 = None, rih_tractor = None, pt_pooh = None\<rparr>,
         \<lparr>pt_md = 100, rih_standard_1 = None, rih_standard_2 = None, rih_tractor = None, pt_pooh = None\<rparr>,
         \<lparr>pt_md = 200, rih_standard_1 = None, rih_standard_2 = None, rih_tractor = Some 5, pt_pooh = None\<rparr>,
         \<lparr>pt_md = 300, rih_standard_1 = None, rih_standard_2 = None, rih_tractor = None, pt_pooh = None\<rparr>]"
    by (simp add: handleStitch_def Let_def main_gap_deep depths_gap_deep connect1_def connect2_def
          js_nth_def)
  then show ?thesis
    using near_gap_deep
    by (simp add: depths_gap_deep phase1_def phase3_def near_rih_def)
qed

text \<open>
  Claim C3 as stated fails.  Tractor-off file: one sample at 100; tractor-on file: samples
  at 10 and 50; force depth 10, stop depth 40.  The point at 10 is the last Phase-2 point,
  a Phase-3 segment follows (50 and 100), and a \<open>rih_standard_2\<close> reading exists after it
  (at 100); the point right after it (at 50) has none, and no connector is written.
\<close>

theorem handleStitch_connector2_counterexample:
  "handleStitch \<lparr>f_rih = Some rih_late, f_tractor = Some tractor_early, f_pooh = None\<rparr>
     (Some 10) (Some 40) =
   Some [\<lparr>pt_md = 10, rih_standard_1 = None, rih_standard_2 = None, rih_tractor = Some 3, pt_pooh = Some 1\<rparr>,
         \<lparr>pt_md = 50, rih_standard_1 = None, rih_standard_2 = None, rih_tractor = None, pt_pooh = Some 2\<rparr>,
         \<lparr>pt_md = 100, rih_standard_1 = None, rih_standard_2 = Some 7, rih_tractor = None, pt_pooh = None\<rparr>] \<and>
   forceDepth_of (Some 10) rih_late = Fin 10 \<and>
   stopDepth_of (Some 40) (forceDepth_of (Some 10) rih_late) = Fin 40 \<and>
   phase2 (Fin 10) (Fin 40) 10 \<and> phase3 (Fin 40) 50 \<and> phase3 (Fin 40) 100 \<and>
   rih_standard_2 (the (handleStitch \<lparr>f_rih = Some rih_late, f_tractor = Some tractor_early, f_pooh = None\<rparr>
     (Some 10) (Some 40)) ! 2) \<noteq> None \<and>
   rih_standard_2 (the (handleStitch \<lparr>f_rih = Some rih_late, f_tractor = Some tractor_early, f_pooh = None\<rparr>
     (Some 10) (Some 40)) ! 0) = None"
proof -
  have "handleStitch \<lparr>f_rih = Some rih_late, f_tractor = Some tractor_early, f_pooh = None\<rparr>
     (Some 10) (Some 40) =
   Some [\<lparr>pt_md = 10, rih_standard_1 = None, rih_standard_2 = None, rih_tractor = Some 3, pt_pooh = Some 1\<rparr>,
         \<lparr>pt_md = 50, rih_standard_1 = None, rih_standard_2 = None, rih_tractor = None, pt_pooh = Some 2\<rparr>,
         \<lparr>pt_md = 100, rih_standard_1 = None, rih_standard_2 = Some 7, rih_tractor = None, pt_pooh = None\<rparr>]"
    by (simp add: handleStitch_def Let_def main_late_early depths_late_early connect1_def connect2_def
          js_nth_def)
  then show ?thesis
    by (simp add: depths_late_early phase2_def phase3_def)
qed

text \<open>
  Claim C3, amended.  After the main pass, the point at which the last Phase-1 value was
  recorded gets that value in \<open>rih_tractor\<close> (connector 1; in particular when a
  Phase-1 to Phase-2 transition occurred); the point at which the last Phase-2 value was
  recorded gets that value in \<open>rih_standard_2\<close> exactly when the point immediately after it
  has a \<open>rih_standard_2\<close> reading, and keeps null otherwise; nothing else changes, so no
  \<open>rih_standard_2\<close> value appears when the main pass produced none.
\<close>

theorem handleStitch_connectors:
  fixes rih tractor :: "sample list" and pooh :: "sample list option"
    and tractorDepth stopTractorDepth :: "real option"
  defines "fd \<equiv> forceDepth_of tractorDepth rih"
  defines "sd \<equiv> stopDepth_of stopTractorDepth (forceDepth_of tractorDepth rih)"
  defines "mds \<equiv> allMDs_of rih tractor pooh"
  defines "m \<equiv> merged (stitch_main rih tractor pooh tractorDepth stopTractorDepth)"
  defines "out \<equiv> the (handleStitch \<lparr>f_rih = Some rih, f_tractor = Some tractor, f_pooh = pooh\<rparr>
                         tractorDepth stopTractorDepth)"
  shows "handleStitch \<lparr>f_rih = Some rih, f_tractor = Some tractor, f_pooh = pooh\<rparr>
           tractorDepth stopTractorDepth \<noteq> None \<and>
         length out = length mds \<and>
         (\<forall>i. last_index (rec1 rih fd) mds = Some i \<longrightarrow>
              phase1 fd (mds ! i) \<and> rih_tractor (out ! i) = near_rih rih (mds ! i)) \<and>
         (\<forall>i. last_index (rec2 tractor fd sd) mds = Some i \<longrightarrow>
              phase2 fd sd (mds ! i) \<and>
              rih_standard_2 (out ! i) =
                (if i + 1 < length mds \<and> rih_standard_2 (m ! (i + 1)) \<noteq> None
                 then near_rih tractor (mds ! i) else None)) \<and>
         (\<forall>j < length mds.
              pt_md (out ! j) = mds ! j \<and>
              rih_standard_1 (out ! j) = rih_standard_1 (m ! j) \<and>
              pt_pooh (out ! j) = pt_pooh (m ! j) \<and>
              (last_index (rec1 rih fd) mds \<noteq> Some j \<longrightarrow> rih_tractor (out ! j) = rih_tractor (m ! j)) \<and>
              (last_index (rec2 tractor fd sd) mds \<noteq> Some j \<longrightarrow>
                 rih_standard_2 (out ! j) = rih_standard_2 (m ! j))) \<and>
         ((\<forall>j < length mds. rih_standard_2 (m ! j) = None) \<longrightarrow>
            (\<forall>j < length mds. rih_standard_2 (out ! j) = None))"
proof -
  from handleStitch_fields[of rih tractor pooh tractorDepth stopTractorDepth]
  obtain out' where o: "handleStitch \<lparr>f_rih = Some rih, f_tractor = Some tractor, f_pooh = pooh\<rparr>
        tractorDepth stopTractorDepth = Some out'"
    and len: "length out' = length mds"
    and fl: "\<forall>j < length mds.
        pt_md (out' ! j) = mds ! j \<and>
        rih_standard_1 (out' ! j) = rih_standard_1 (m ! j) \<and>
        pt_pooh (out' ! j) = pt_pooh (m ! j) \<and>
        rih_tractor (out' ! j) =
          (if last_index (rec1 rih fd) mds = Some j then near_rih rih (mds ! j)
           else rih_tractor (m ! j)) \<and>
        rih_standard_2 (out' ! j) =
          (if last_index (rec2 tractor fd sd) mds = Some j \<and> j + 1 < length mds \<and>
              rih_standard_2 (m ! (j + 1)) \<noteq> None
           then near_rih tractor (mds ! j)
           else rih_standard_2 (m ! j))"
    unfolding fd_def sd_def mds_def m_def by blast
  from o have oo: "out = out'" by (simp add: out_def)
  have a: "handleStitch \<lparr>f_rih = Some rih, f_tractor = Some tractor, f_pooh = pooh\<rparr>
           tractorDepth stopTractorDepth \<noteq> None" using o by simp
  have b: "length out = length mds" using len oo by simp
  have c: "phase1 fd (mds ! i) \<and> rih_tractor (out ! i) = near_rih rih (mds ! i)"
    if "last_index (rec1 rih fd) mds = Some i" for i
  proof -
    from last_index_less[OF that] have "i < length mds" "rec1 rih fd (mds ! i)" by blast+
    with fl that oo show ?thesis by (simp add: rec1_def)
  qed
  have d: "phase2 fd sd (mds ! i) \<and>
              rih_standard_2 (out ! i) =
                (if i + 1 < length mds \<and> rih_standard_2 (m ! (i + 1)) \<noteq> None
                 then near_rih tractor (mds ! i) else None)"
    if "last_index (rec2 tractor fd sd) mds = Some i" for i
  proof -
    from last_index_less[OF that] have i: "i < length mds" "rec2 tractor fd sd (mds ! i)" by blast+
    then have p2: "phase2 fd sd (mds ! i)" by (simp add: rec2_def)
    note S = stitch_main_std2[of i rih tractor pooh tractorDepth stopTractorDepth,
        folded sd_def fd_def mds_def m_def]
    from S[OF i(1)] p2 have "rih_standard_2 (m ! i) = None" by blast
    with fl i(1) that oo p2 show ?thesis by auto
  qed
  have e: "pt_md (out ! j) = mds ! j \<and>
              rih_standard_1 (out ! j) = rih_standard_1 (m ! j) \<and>
              pt_pooh (out ! j) = pt_pooh (m ! j) \<and>
              (last_index (rec1 rih fd) mds \<noteq> Some j \<longrightarrow> rih_tractor (out ! j) = rih_tractor (m ! j)) \<and>
              (last_index (rec2 tractor fd sd) mds \<noteq> Some j \<longrightarrow>
                 rih_standard_2 (out ! j) = rih_standard_2 (m ! j))"
    if "j < length mds" for j
    using fl that oo by simp
  have f: "\<forall>j < length mds. rih_standard_2 (out ! j) = None"
    if none: "\<forall>j < length mds. rih_standard_2 (m ! j) = None"
  proof (intro allI impI)
    fix j assume j: "j < length mds"
    with fl oo have "rih_standard_2 (out ! j) =
          (if last_index (rec2 tractor fd sd) mds = Some j \<and> j + 1 < length mds \<and>
              rih_standard_2 (m ! (j + 1)) \<noteq> None
           then near_rih tractor (mds ! j)
           else rih_standard_2 (m ! j))" by simp
    with none j show "rih_standard_2 (out ! j) = None" by auto
  qed
  from a b c d e f show ?thesis by blast
qed

text \<open>
  The amended C3 on the example files with force depth 500 and stop depth 950: connector 1
  at 400 and connector 2 at 900, whose next point (1000) has a \<open>rih_standard_2\<close> reading.
\<close>

theorem handleStitch_connectors_witness:
  "last_index (rec1 rih_off (forceDepth_of (Some 500) rih_off)) (allMDs_of rih_off tractor_on None) = Some 1 \<and>
   rih_tractor (the (handleStitch \<lparr>f_rih = Some rih_off, f_tractor = Some tractor_on, f_pooh = None\<rparr>
                       (Some 500) (Some 950)) ! 1) = Some 20 \<and>
   last_index (rec2 tractor_on (Fin 500) (Fin 950)) (allMDs_of rih_off tractor_on None) = Some 3 \<and>
   rih_standard_2 (merged (stitch_main rih_off tractor_on None (Some 500) (Some 950)) ! 4) = Some 30 \<and>
   rih_standard_2 (the (handleStitch \<lparr>f_rih = Some rih_off, f_tractor = Some tractor_on, f_pooh = None\<rparr>
                          (Some 500) (Some 950)) ! 3) = Some 6"
proof -
  have nr: "near_rih rih_off 400 = Some 20" "near_rih tractor_on 900 = Some 6"
    using near_off_on by simp_all
  have nx: "near rih_off 1000 = Some \<lparr>s_md = 1000, s_rih = Some 30, s_pooh = None\<rparr>"
    by (simp add: near_def rih_off_def)
  have p3: "phase3 (Fin 950) 1000" by (simp add: phase3_def)
  note S = stitch_main_std2[of 4 rih_off tractor_on None "Some 500" "Some 950",
      unfolded allMDs_off_on depths_off_on_950[THEN conjunct2] depths_off_on_950[THEN conjunct1]]
  from S p3 nx
  have m4: "rih_standard_2 (merged (stitch_main rih_off tractor_on None (Some 500) (Some 950)) ! 4) = Some 30"
    by simp
  note T = handleStitch_connectors[where rih = rih_off and tractor = tractor_on and pooh = None
      and tractorDepth = "Some 500" and stopTractorDepth = "Some 950",
      unfolded allMDs_off_on depths_off_on_950[THEN conjunct2] depths_off_on_950[THEN conjunct1]]
  from T last_rec1_off_on nr
  have c1: "rih_tractor (the (handleStitch \<lparr>f_rih = Some rih_off, f_tractor = Some tractor_on, f_pooh = None\<rparr>
                       (Some 500) (Some 950)) ! 1) = Some 20"
    by (elim conjE allE[of _ "1::nat"]) simp
  from T last_rec2_off_on nr m4
  have c2: "rih_standard_2 (the (handleStitch \<lparr>f_rih = Some rih_off, f_tractor = Some tractor_on, f_pooh = None\<rparr>
                          (Some 500) (Some 950)) ! 3) = Some 6"
    by (elim conjE allE[of _ "3::nat"]) simp
  from c1 c2 m4 last_rec1_off_on last_rec2_off_on show ?thesis
    by (simp add: allMDs_off_on depths_off_on_950)
qed

text \<open>
  Claim C4.  Without a tractor series \<open>handleStitch\<close> produces nothing, and the component
  (in every state it can reach) shows the plain display: the \<open>rih\<close> series mapped point for
  point into \<open>rih_standard_1\<close>, with \<open>rih_tractor\<close> and \<open>rih_standard_2\<close> null at every
  point, and \<open>pooh\<close> by the priority rule: the \<open>pooh\<close> of the first override sample within
  0.5 (else null) when an override file is there, else the \<open>rih\<close> sample's \<open>pooh\<close>.
\<close>

theorem no_tractor_degenerate:
  "(f_tractor files = None \<longrightarrow> handleStitch files tractorDepth stopTractorDepth = None) \<and>
   (f_rih files = Some rih \<longrightarrow>
      autoDisplay files False chartData =
        map (\<lambda>p. \<lparr>pt_md = s_md p, rih_standard_1 = s_rih p, rih_standard_2 = None,
                    rih_tractor = None,
                    pt_pooh = (case f_pooh files of
                                 Some ps \<Rightarrow> near_pooh ps (s_md p)
                               | None \<Rightarrow> s_pooh p)\<rparr>) rih) \<and>
   (reachable b \<and> f_tractor (b_files b) = None \<and> f_rih (b_files b) = Some rih' \<longrightarrow>
      \<not> b_isStitched b \<and>
      length (b_chartData b) = length rih' \<and>
      (\<forall>i < length rih'.
         pt_md (b_chartData b ! i) = s_md (rih' ! i) \<and>
         rih_standard_1 (b_chartData b ! i) = s_rih (rih' ! i) \<and>
         rih_tractor (b_chartData b ! i) = None \<and>
         rih_standard_2 (b_chartData b ! i) = None \<and>
         pt_pooh (b_chartData b ! i) =
           (case f_pooh (b_files b) of
              Some ps \<Rightarrow> near_pooh ps (s_md (rih' ! i))
            | None \<Rightarrow> s_pooh (rih' ! i))))"
proof -
  have a: "handleStitch files tractorDepth stopTractorDepth = None" if "f_tractor files = None"
    using that by (rule handleStitch_no_tractor)
  have b: "autoDisplay files False chartData =
        map (\<lambda>p. \<lparr>pt_md = s_md p, rih_standard_1 = s_rih p, rih_standard_2 = None,
                    rih_tractor = None,
                    pt_pooh = (case f_pooh files of
                                 Some ps \<Rightarrow> near_pooh ps (s_md p)
                               | None \<Rightarrow> s_pooh p)\<rparr>) rih"
    if "f_rih files = Some rih"
    using autoDisplay_map[of files rih chartData] that by blast
  have c: "\<not> b_isStitched b \<and>
      length (b_chartData b) = length rih' \<and>
      (\<forall>i < length rih'.
         pt_md (b_chartData b ! i) = s_md (rih' ! i) \<and>
         rih_standard_1 (b_chartData b ! i) = s_rih (rih' ! i) \<and>
         rih_tractor (b_chartData b ! i) = None \<and>
         rih_standard_2 (b_chartData b ! i) = None \<and>
         pt_pooh (b_chartData b ! i) =
           (case f_pooh (b_files b) of
              Some ps \<Rightarrow> near_pooh ps (s_md (rih' ! i))
            | None \<Rightarrow> s_pooh (rih' ! i)))"
    if h: "reachable b \<and> f_tractor (b_files b) = None \<and> f_rih (b_files b) = Some rih'"
  proof -
    from h have inv: "builder_inv b" by (simp add: reachable_inv)
    with h have ns: "\<not> b_isStitched b" by (auto simp add: builder_inv_def)
    with inv have cd: "b_chartData b = autoDisplay (b_files b) False []"
      by (simp add: builder_inv_def)
    from autoDisplay_map[of "b_files b" rih' "[]"] h ns show ?thesis
      unfolding cd by blast
  qed
  from a b c show ?thesis by blast
qed

text \<open>
  C4 on the tractor-off example file, with and without a POOH override file.
\<close>

theorem no_tractor_degenerate_witness:
  "reachable (mount \<lparr>f_rih = Some rih_off, f_tractor = None, f_pooh = Some pooh_override\<rparr> (Some 0) (Some 0)) \<and>
   handleStitch \<lparr>f_rih = Some rih_off, f_tractor = None, f_pooh = Some pooh_override\<rparr> (Some 0) (Some 0) = None \<and>
   length (b_chartData (mount \<lparr>f_rih = Some rih_off, f_tractor = None, f_pooh = Some pooh_override\<rparr>
                          (Some 0) (Some 0))) = length rih_off \<and>
   b_chartData (mount \<lparr>f_rih = Some rih_off, f_tractor = None, f_pooh = Some pooh_override\<rparr> (Some 0) (Some 0)) =
     [\<lparr>pt_md = 0, rih_standard_1 = Some 10, rih_standard_2 = None, rih_tractor = None, pt_pooh = None\<rparr>,
      \<lparr>pt_md = 400, rih_standard_1 = Some 20, rih_standard_2 = None, rih_tractor = None, pt_pooh = Some 99\<rparr>,
      \<lparr>pt_md = 1000, rih_standard_1 = Some 30, rih_standard_2 = None, rih_tractor = None, pt_pooh = None\<rparr>] \<and>
   autoDisplay \<lparr>f_rih = Some rih_off, f_tractor = None, f_pooh = None\<rparr> False [] =
     [\<lparr>pt_md = 0, rih_standard_1 = Some 10, rih_standard_2 = None, rih_tractor = None, pt_pooh = Some 1\<rparr>,
      \<lparr>pt_md = 400, rih_standard_1 = Some 20, rih_standard_2 = None, rih_tractor = None, pt_pooh = Some 2\<rparr>,
      \<lparr>pt_md = 1000, rih_standard_1 = Some 30, rih_standard_2 = None, rih_tractor = None, pt_pooh = None\<rparr>]"
proof -
  let ?f = "\<lparr>f_rih = Some rih_off, f_tractor = None, f_pooh = Some pooh_override\<rparr>"
  let ?g = "\<lparr>f_rih = Some rih_off, f_tractor = None, f_pooh = None\<rparr>"
  have r: "reachable (mount ?f (Some 0) (Some 0))" by (rule reach_mount)
  have np: "map (near_pooh pooh_override) [0, 400, 1000] = [None, Some 99, None]"
    by (simp add: near_pooh_def near_def pooh_override_def)
  note T = no_tractor_degenerate[of ?f "Some 0" "Some 0" rih_off "[]" "mount ?f (Some 0) (Some 0)" rih_off]
  from T have h: "handleStitch ?f (Some 0) (Some 0) = None" by simp
  have "f_tractor (b_files (mount ?f (Some 0) (Some 0))) = None \<and>
        f_rih (b_files (mount ?f (Some 0) (Some 0))) = Some rih_off" by (simp add: mount_def)
  with T r have l: "length (b_chartData (mount ?f (Some 0) (Some 0))) = length rih_off" by blast
  from T have "autoDisplay ?f False [] =
        map (\<lambda>p. \<lparr>pt_md = s_md p, rih_standard_1 = s_rih p, rih_standard_2 = None,
                    rih_tractor = None,
                    pt_pooh = (case f_pooh ?f of
                                 Some ps \<Rightarrow> near_pooh ps (s_md p)
                               | None \<Rightarrow> s_pooh p)\<rparr>) rih_off" by simp
  with np have c: "b_chartData (mount ?f (Some 0) (Some 0)) =
     [\<lparr>pt_md = 0, rih_standard_1 = Some 10, rih_standard_2 = None, rih_tractor = None, pt_pooh = None\<rparr>,
      \<lparr>pt_md = 400, rih_standard_1 = Some 20, rih_standard_2 = None, rih_tractor = None, pt_pooh = Some 99\<rparr>,
      \<lparr>pt_md = 1000, rih_standard_1 = Some 30, rih_standard_2 = None, rih_tractor = None, pt_pooh = None\<rparr>]"
    by (simp add: mount_def rih_off_def)
  from no_tractor_degenerate[of ?g "Some 0" "Some 0" rih_off "[]" "mount ?g (Some 0) (Some 0)" rih_off]
  have "autoDisplay ?g False [] =
        map (\<lambda>p. \<lparr>pt_md = s_md p, rih_standard_1 = s_rih p, rih_standard_2 = None,
                    rih_tractor = None,
                    pt_pooh = (case f_pooh ?g of
                                 Some ps \<Rightarrow> near_pooh ps (s_md p)
                               | None \<Rightarrow> s_pooh p)\<rparr>) rih_off" by simp
  then have d: "autoDisplay ?g False [] =
     [\<lparr>pt_md = 0, rih_standard_1 = Some 10, rih_standard_2 = None, rih_tractor = None, pt_pooh = Some 1\<rparr>,
      \<lparr>pt_md = 400, rih_standard_1 = Some 20, rih_standard_2 = None, rih_tractor = None, pt_pooh = Some 2\<rparr>,
      \<lparr>pt_md = 1000, rih_standard_1 = Some 30, rih_standard_2 = None, rih_tractor = None, pt_pooh = None\<rparr>]"
    by (simp add: rih_off_def)
  from r h l c d show ?thesis by (intro conjI)
qed

end
